theory Spec2Isabelle
  imports Main
begin

section \<open>Python strings\<close>

text \<open>
  A Python \<^verbatim>\<open>str\<close> is a sequence of Unicode code points, so a string is a list of
  naturals and \<open>length\<close> counts code points, as \<^verbatim>\<open>len\<close> and slicing do.
  ASCII literals of the source are written \<open>lit ''...''\<close>.
\<close>

type_synonym codepoint = nat
type_synonym pystr = "codepoint list"

definition cp :: "char \<Rightarrow> codepoint" where
  "cp c = of_char c"

definition lit :: "string \<Rightarrow> pystr" where
  "lit s = map cp s"

text \<open>
  The Unicode character database of the Python runtime is not part of the repository.
  What the source asks of it beyond ASCII is taken as a parameter: the lower-casing of a
  non-ASCII code point (which may depend on its position in the string, as for the final
  sigma, and may yield several code points, some of them ASCII), whether a non-ASCII code
  point is alphabetic, and whether it is a word character of the \<^verbatim>\<open>re\<close> module.
  On ASCII the three are written out below.
\<close>

record unicode_db =
  lower_ext :: "pystr \<Rightarrow> nat \<Rightarrow> pystr"
  alpha_ext :: "codepoint \<Rightarrow> bool"
  word_ext :: "codepoint \<Rightarrow> bool"

definition is_az :: "codepoint \<Rightarrow> bool" where
  "is_az c = (cp CHR ''a'' \<le> c \<and> c \<le> cp CHR ''z'')"

definition is_AZ :: "codepoint \<Rightarrow> bool" where
  "is_AZ c = (cp CHR ''A'' \<le> c \<and> c \<le> cp CHR ''Z'')"

definition is_09 :: "codepoint \<Rightarrow> bool" where
  "is_09 c = (cp CHR ''0'' \<le> c \<and> c \<le> cp CHR ''9'')"

definition is_ascii :: "codepoint \<Rightarrow> bool" where
  "is_ascii c = (c < 128)"

text \<open>\<^verbatim>\<open>str.lower()\<close>: \<^verbatim>\<open>A-Z\<close> go to \<^verbatim>\<open>a-z\<close>, every other ASCII code point stays.\<close>

definition lower_at :: "unicode_db \<Rightarrow> pystr \<Rightarrow> nat \<times> codepoint \<Rightarrow> pystr" where
  "lower_at U s ic =
     (case ic of (i, c) \<Rightarrow>
        if is_AZ c then [c + 32]
        else if is_ascii c then [c]
        else lower_ext U s i)"

definition str_lower :: "unicode_db \<Rightarrow> pystr \<Rightarrow> pystr" where
  "str_lower U s = concat (map (lower_at U s) (zip [0..<length s] s))"

text \<open>\<^verbatim>\<open>c.isalpha()\<close> for a single code point.\<close>

definition isalpha :: "unicode_db \<Rightarrow> codepoint \<Rightarrow> bool" where
  "isalpha U c = (if is_ascii c then is_az c \<or> is_AZ c else alpha_ext U c)"

text \<open>\<^verbatim>\<open>\w\<close> of a \<^verbatim>\<open>str\<close> pattern: alphanumeric or underscore.\<close>

definition is_word :: "unicode_db \<Rightarrow> codepoint \<Rightarrow> bool" where
  "is_word U c =
     (if is_ascii c then is_az c \<or> is_AZ c \<or> is_09 c \<or> c = cp CHR ''_''
      else word_ext U c)"

text \<open>
  \<^verbatim>\<open>c.isspace()\<close>: the code points that \<^verbatim>\<open>str.strip()\<close> removes. This list is fixed
  by the Unicode standard (bidirectional classes WS, B, S and category Zs).
\<close>

definition isspace :: "codepoint \<Rightarrow> bool" where
  "isspace c =
     ((9 \<le> c \<and> c \<le> 13) \<or> (28 \<le> c \<and> c \<le> 32) \<or> c = 133 \<or> c = 160
      \<or> c = 5760 \<or> (8192 \<le> c \<and> c \<le> 8202) \<or> c = 8232 \<or> c = 8233
      \<or> c = 8239 \<or> c = 8287 \<or> c = 12288)"

text \<open>\<^verbatim>\<open>s.replace(a, b)\<close> for single code points \<open>a\<close>, \<open>b\<close>.\<close>

definition replace1 :: "codepoint \<Rightarrow> codepoint \<Rightarrow> pystr \<Rightarrow> pystr" where
  "replace1 a b s = map (\<lambda>c. if c = a then b else c) s"

text \<open>\<^verbatim>\<open>s.lstrip(chars)\<close>, \<^verbatim>\<open>s.rstrip(chars)\<close>, \<^verbatim>\<open>s.strip(chars)\<close> for a set of code points.\<close>

definition lstrip_of :: "(codepoint \<Rightarrow> bool) \<Rightarrow> pystr \<Rightarrow> pystr" where
  "lstrip_of P s = dropWhile P s"

definition rstrip_of :: "(codepoint \<Rightarrow> bool) \<Rightarrow> pystr \<Rightarrow> pystr" where
  "rstrip_of P s = rev (dropWhile P (rev s))"

definition strip_of :: "(codepoint \<Rightarrow> bool) \<Rightarrow> pystr \<Rightarrow> pystr" where
  "strip_of P s = rstrip_of P (lstrip_of P s)"

text \<open>\<^verbatim>\<open>s.strip()\<close> removes white space.\<close>

definition strip :: "pystr \<Rightarrow> pystr" where
  "strip s = strip_of isspace s"

text \<open>
  \<^verbatim>\<open>s.split(sep)\<close> for a single code point: one field more than there are separators,
  empty fields included.
\<close>

fun split_on :: "codepoint \<Rightarrow> pystr \<Rightarrow> pystr list" where
  "split_on d [] = [[]]"
| "split_on d (c # cs) =
     (if c = d then [] # split_on d cs
      else (case split_on d cs of
              [] \<Rightarrow> [[c]]
            | p # ps \<Rightarrow> (c # p) # ps))"

text \<open>\<^verbatim>\<open>sep.join(parts)\<close>.\<close>

fun join :: "pystr \<Rightarrow> pystr list \<Rightarrow> pystr" where
  "join sep [] = []"
| "join sep [p] = p"
| "join sep (p # q # ps) = p @ sep @ join sep (q # ps)"

text \<open>
  \<^verbatim>\<open>re.sub(r'C+', lambda m: m.group()[0], s)\<close> for a character class \<open>C\<close>: every maximal
  run of class members is replaced by its first member. With one member in the class
  this is also \<^verbatim>\<open>re.sub(r'\.+', '.', s)\<close>.
\<close>

function collapse_runs :: "(codepoint \<Rightarrow> bool) \<Rightarrow> pystr \<Rightarrow> pystr" where
  "collapse_runs P [] = []"
| "collapse_runs P (c # cs) =
     (if P c then c # collapse_runs P (dropWhile P cs) else c # collapse_runs P cs)"
  by pat_completeness auto
termination
  by (relation "measure (\<lambda>(P, s). length s)") (auto simp: length_dropWhile_le less_Suc_eq_le)

section \<open>Identifier normalizers\<close>

definition is_sep :: "codepoint \<Rightarrow> bool" where
  "is_sep c = (c = cp CHR ''_'' \<or> c = cp CHR ''-'')"

text \<open>The class \<^verbatim>\<open>[a-z0-9_-]\<close>.\<close>

definition slug_char :: "codepoint \<Rightarrow> bool" where
  "slug_char c = (is_az c \<or> is_09 c \<or> is_sep c)"

text \<open>
  \<^verbatim>\<open>
  def slugify_modid(s):
      s = re.sub(r'[^a-z0-9_-]', '', s.lower().replace(' ', '_'))
      s = re.sub(r'[_-]+', lambda m: m.group()[0], s).strip('_-')
      if not s or not s[0].isalpha():
          s = 'c' + s.lstrip('0123456789_-')
      return (s or 'cbclient')[:64]
  \<close>
\<close>

definition slugify_modid :: "unicode_db \<Rightarrow> pystr \<Rightarrow> pystr" where
  "slugify_modid U s =
     (let s1 = filter slug_char (replace1 (cp CHR '' '') (cp CHR ''_'') (str_lower U s));
          s2 = strip_of is_sep (collapse_runs is_sep s1);
          s3 = (if s2 = [] \<or> \<not> isalpha U (hd s2)
                then lit ''c'' @ lstrip_of (\<lambda>c. is_09 c \<or> is_sep c) s2
                else s2)
      in take 64 (if s3 = [] then lit ''cbclient'' else s3))"

text \<open>The class \<^verbatim>\<open>[a-z0-9_.]\<close>.\<close>

definition pkg_char :: "codepoint \<Rightarrow> bool" where
  "pkg_char c = (is_az c \<or> is_09 c \<or> c = cp CHR ''_'' \<or> c = cp CHR ''.'')"

definition is_dot :: "codepoint \<Rightarrow> bool" where
  "is_dot c = (c = cp CHR ''.'')"

text \<open>
  \<^verbatim>\<open>
  def safe_pkg(s):
      s = re.sub(r'[^a-z0-9_.]', '', s.lower().replace('-', '_').replace(' ', '_'))
      parts = [p for p in re.sub(r'\.+', '.', s).strip('.').split('.') if p]
      return '.'.join(p if p[0].isalpha() or p[0] == '_' else 'p' + p
                      for p in parts) or 'com.example'
  \<close>
  The comprehension keeps non-empty parts only, so \<open>hd p\<close> below is \<^verbatim>\<open>p[0]\<close>.
\<close>

definition pkg_part :: "unicode_db \<Rightarrow> pystr \<Rightarrow> pystr" where
  "pkg_part U p = (if isalpha U (hd p) \<or> hd p = cp CHR ''_'' then p else lit ''p'' @ p)"

definition safe_pkg :: "unicode_db \<Rightarrow> pystr \<Rightarrow> pystr" where
  "safe_pkg U s =
     (let s1 = filter pkg_char
                 (replace1 (cp CHR '' '') (cp CHR ''_'')
                    (replace1 (cp CHR ''-'') (cp CHR ''_'') (str_lower U s)));
          parts = filter (\<lambda>p. p \<noteq> [])
                    (split_on (cp CHR ''.'') (strip_of is_dot (collapse_runs is_dot s1)));
          joined = join (lit ''.'') (map (pkg_part U) parts)
      in if joined = [] then lit ''com.example'' else joined)"

section \<open>Recognisers for the documented output formats\<close>

text \<open>The regular expression \<^verbatim>\<open>^[a-z][a-z0-9_-]{0,63}$\<close>, as a full match.\<close>

definition slug_match :: "pystr \<Rightarrow> bool" where
  "slug_match s =
     (case s of
        [] \<Rightarrow> False
      | c # cs \<Rightarrow> is_az c \<and> list_all slug_char cs \<and> length cs \<le> 63)"

text \<open>No two neighbouring separator characters.\<close>

fun no_sep_run :: "pystr \<Rightarrow> bool" where
  "no_sep_run (a # b # cs) = (\<not> (is_sep a \<and> is_sep b) \<and> no_sep_run (b # cs))"
| "no_sep_run _ = True"

text \<open>
  The regular expression \<^verbatim>\<open>^[a-z_][a-z0-9_]*(\.[a-z_][a-z0-9_]*)*$\<close>, as a full
  match, by its two-state automaton: \<open>ns_start\<close> expects the first character of a
  segment, \<open>ns_rest\<close> is inside a segment.
\<close>

definition seg_first :: "codepoint \<Rightarrow> bool" where
  "seg_first c = (is_az c \<or> c = cp CHR ''_'')"

definition seg_char :: "codepoint \<Rightarrow> bool" where
  "seg_char c = (is_az c \<or> is_09 c \<or> c = cp CHR ''_'')"

fun ns_start :: "pystr \<Rightarrow> bool" and ns_rest :: "pystr \<Rightarrow> bool" where
  "ns_start [] = False"
| "ns_start (c # cs) = (seg_first c \<and> ns_rest cs)"
| "ns_rest [] = True"
| "ns_rest (c # cs) = (if c = cp CHR ''.'' then ns_start cs else seg_char c \<and> ns_rest cs)"


section \<open>Auxiliary definitions\<close>

text \<open>The three intermediate strings of \<open>slugify_modid\<close>.\<close>

definition slug_s2 :: "unicode_db \<Rightarrow> pystr \<Rightarrow> pystr" where
  "slug_s2 U s = strip_of is_sep (collapse_runs is_sep
     (filter slug_char (replace1 (cp CHR '' '') (cp CHR ''_'') (str_lower U s))))"

definition slug_s3 :: "unicode_db \<Rightarrow> pystr \<Rightarrow> pystr" where
  "slug_s3 U s = (let s2 = slug_s2 U s in
     if s2 = [] \<or> \<not> isalpha U (hd s2)
     then lit ''c'' @ lstrip_of (\<lambda>c. is_09 c \<or> is_sep c) s2 else s2)"

text \<open>
  A table for running the model on ASCII input, where the tables are never consulted:
  outside ASCII it lower-cases nothing and knows no letters.
\<close>

definition ascii_db :: unicode_db where
  "ascii_db = \<lparr>lower_ext = (\<lambda>s i. [s ! i]), alpha_ext = (\<lambda>c. False), word_ext = (\<lambda>c. False)\<rparr>"

text \<open>A well-formed namespace segment, and the parts \<open>safe_pkg\<close> joins.\<close>

definition good_seg :: "pystr \<Rightarrow> bool" where
  "good_seg q = (q \<noteq> [] \<and> seg_first (hd q) \<and> list_all seg_char q)"

definition pkg_parts :: "unicode_db \<Rightarrow> pystr \<Rightarrow> pystr list" where
  "pkg_parts U s = filter (\<lambda>p. p \<noteq> [])
     (split_on (cp CHR ''.'') (strip_of is_dot (collapse_runs is_dot
        (filter pkg_char
           (replace1 (cp CHR '' '') (cp CHR ''_'')
              (replace1 (cp CHR ''-'') (cp CHR ''_'') (str_lower U s)))))))"

section \<open>Metadata\<close>

text \<open>
  A \<^verbatim>\<open>pathlib.Path\<close> is the list of its components; \<open>[]\<close> is the anchor the
  components are read from.
\<close>

type_synonym path = "pystr list"

text \<open>The dataclass \<^verbatim>\<open>Meta\<close>; \<^verbatim>\<open>authors\<close> is a tuple of strings.\<close>

record Meta =
  out_dir :: path
  project_name :: pystr
  client_name :: pystr
  mod_id :: pystr
  maven_group :: pystr
  mod_version :: pystr
  authors :: "pystr list"
  description :: pystr
  license_name :: pystr

text \<open>\<^verbatim>\<open>x or default\<close> on strings and on tuples: the default replaces an empty value.\<close>

definition or_else :: "'a list \<Rightarrow> 'a list \<Rightarrow> 'a list" where
  "or_else x d = (if x = [] then d else x)"

text \<open>
  \<^verbatim>\<open>
  @property
  def base_package(self):
      return safe_pkg(f"{self.maven_group}.{self.mod_id}")
  \<close>
\<close>

definition base_package :: "unicode_db \<Rightarrow> Meta \<Rightarrow> pystr" where
  "base_package U m = safe_pkg U (maven_group m @ lit ''.'' @ mod_id m)"

text \<open>The class \<^verbatim>\<open>[\w\-. ]\<close>, whose complement \<^verbatim>\<open>normalized\<close> deletes from the folder name.\<close>

definition folder_char :: "unicode_db \<Rightarrow> codepoint \<Rightarrow> bool" where
  "folder_char U c =
     (is_word U c \<or> c = cp CHR ''-'' \<or> c = cp CHR ''.'' \<or> c = cp CHR '' '')"

text \<open>
  \<^verbatim>\<open>
  def normalized(self):
      return Meta(
          out_dir=self.out_dir,
          project_name=re.sub(r'[^\w\-. ]', '', self.project_name).strip() or 'CBClient',
          client_name=self.client_name.strip() or 'CBClient',
          mod_id=slugify_modid(self.mod_id),
          maven_group=safe_pkg(self.maven_group),
          mod_version=self.mod_version.strip() or '0.1.0',
          authors=tuple(a.strip() for a in self.authors if a.strip()) or ('Unknown',),
          description=(self.description or f"{self.client_name} - Fabric client mod").strip(),
          license_name=self.license_name.strip() or 'MIT',
      )
  \<close>
\<close>

definition normalized :: "unicode_db \<Rightarrow> Meta \<Rightarrow> Meta" where
  "normalized U m =
     \<lparr> out_dir = out_dir m,
       project_name = or_else (strip (filter (folder_char U) (project_name m))) (lit ''CBClient''),
       client_name = or_else (strip (client_name m)) (lit ''CBClient''),
       mod_id = slugify_modid U (mod_id m),
       maven_group = safe_pkg U (maven_group m),
       mod_version = or_else (strip (mod_version m)) (lit ''0.1.0''),
       authors = or_else (map strip (filter (\<lambda>a. strip a \<noteq> []) (authors m))) [lit ''Unknown''],
       description = strip (or_else (description m) (client_name m @ lit '' - Fabric client mod'')),
       license_name = or_else (strip (license_name m)) (lit ''MIT'') \<rparr>"

text \<open>A blank string: empty, or white space only.\<close>

definition blank :: "pystr \<Rightarrow> bool" where
  "blank s = list_all isspace s"

text \<open>A trimmed string has no white space at either end.\<close>

definition trimmed :: "pystr \<Rightarrow> bool" where
  "trimmed s = (s = [] \<or> (\<not> isspace (hd s) \<and> \<not> isspace (last s)))"

text \<open>The record the command-line entry point \<^verbatim>\<open>main\<close> passes to \<^verbatim>\<open>generate\<close>.\<close>

definition default_meta :: Meta where
  "default_meta =
     \<lparr> out_dir = [lit ''work''],
       project_name = lit ''CBClient_client'',
       client_name = lit ''CBClient'',
       mod_id = lit ''cbclient'',
       maven_group = lit ''com.example'',
       mod_version = lit ''0.1.0'',
       authors = [lit ''Unknown''],
       description = lit ''Fabric client mod'',
       license_name = lit ''MIT'' \<rparr>"

section \<open>Paths, the clock and the file system\<close>

text \<open>
  \<^verbatim>\<open>path / s\<close> of \<^verbatim>\<open>pathlib\<close> (POSIX flavour): the string is cut at \<^verbatim>\<open>/\<close>, empty
  components and \<^verbatim>\<open>.\<close> are dropped, \<^verbatim>\<open>..\<close> is kept; a string that starts with
  \<^verbatim>\<open>/\<close> replaces the path.
\<close>

definition path_parts :: "pystr \<Rightarrow> path" where
  "path_parts s = filter (\<lambda>p. p \<noteq> [] \<and> p \<noteq> lit ''.'') (split_on (cp CHR ''/'') s)"

definition path_div :: "path \<Rightarrow> pystr \<Rightarrow> path" where
  "path_div p s = (if s \<noteq> [] \<and> hd s = cp CHR ''/'' then path_parts s else p @ path_parts s)"

text \<open>\<^verbatim>\<open>path.parent\<close>.\<close>

definition parent :: "path \<Rightarrow> path" where
  "parent p = butlast p"

text \<open>
  The value of \<^verbatim>\<open>datetime.now()\<close> and its rendering by the format
  \<^verbatim>\<open>%Y%m%d_%H%M%S\<close>: four digits of the year, two of each other field.
\<close>

record datetime =
  year :: nat
  month :: nat
  day :: nat
  hour :: nat
  minute :: nat
  second :: nat

definition digit :: "nat \<Rightarrow> codepoint" where
  "digit n = cp CHR ''0'' + n mod 10"

definition pad2 :: "nat \<Rightarrow> pystr" where
  "pad2 n = [digit (n div 10), digit n]"

definition pad4 :: "nat \<Rightarrow> pystr" where
  "pad4 n = [digit (n div 1000), digit (n div 100), digit (n div 10), digit n]"

definition stamp :: "datetime \<Rightarrow> pystr" where
  "stamp now = pad4 (year now) @ pad2 (month now) @ pad2 (day now) @ lit ''_''
                 @ pad2 (hour now) @ pad2 (minute now) @ pad2 (second now)"

text \<open>
  What \<^verbatim>\<open>write_file\<close> is given: a \<^verbatim>\<open>str\<close> or \<^verbatim>\<open>bytes\<close>. A file holds the text handed
  to \<^verbatim>\<open>write_text\<close> or the bytes handed to \<^verbatim>\<open>write_bytes\<close>; the encoding of text to
  UTF-8 and the newline convention of the platform are below this model.
\<close>

datatype content = Text pystr | Bytes "nat list"

datatype node = File content | Dir

text \<open>
  The file system: the paths that exist, each a file or a directory; the first binding of
  a path counts. The anchor \<open>[]\<close> is a directory. Paths are compared by their
  components, as \<^verbatim>\<open>pathlib\<close> compares them.
\<close>

type_synonym fsys = "(path \<times> node) list"

datatype io_error = NotADirectoryError | FileExistsError | IsADirectoryError

definition lookup :: "fsys \<Rightarrow> path \<Rightarrow> node option" where
  "lookup fs p = (if p = [] then Some Dir else map_of fs p)"

text \<open>\<^verbatim>\<open>any(p.iterdir())\<close> for a directory \<open>p\<close>: some path lies directly in it.\<close>

definition has_entries :: "fsys \<Rightarrow> path \<Rightarrow> bool" where
  "has_entries fs p = list_ex (\<lambda>q. q \<noteq> [] \<and> butlast q = p) (map fst fs)"

text \<open>
  \<^verbatim>\<open>d.mkdir(parents=True, exist_ok=True)\<close>: every missing directory on the way to \<open>d\<close>
  is created; a regular file in the place of \<open>d\<close> raises \<^verbatim>\<open>FileExistsError\<close>, one in
  the place of an ancestor \<^verbatim>\<open>NotADirectoryError\<close>. \<open>mkdir_from fs pre cs\<close> walks the
  components \<open>cs\<close> below the directory \<open>pre\<close>.
\<close>

fun mkdir_from :: "fsys \<Rightarrow> path \<Rightarrow> pystr list \<Rightarrow> fsys \<times> io_error option" where
  "mkdir_from fs pre [] = (fs, None)"
| "mkdir_from fs pre (c # cs) =
     (case lookup fs (pre @ [c]) of
        None \<Rightarrow> mkdir_from ((pre @ [c], Dir) # fs) (pre @ [c]) cs
      | Some Dir \<Rightarrow> mkdir_from fs (pre @ [c]) cs
      | Some (File x) \<Rightarrow> (fs, Some (if cs = [] then FileExistsError else NotADirectoryError)))"

definition mkdir_parents :: "fsys \<Rightarrow> path \<Rightarrow> fsys \<times> io_error option" where
  "mkdir_parents fs d = mkdir_from fs [] d"

text \<open>
  \<^verbatim>\<open>
  def write_file(path, content):
      path.parent.mkdir(parents=True, exist_ok=True)
      if isinstance(content, bytes):
          path.write_bytes(content)
      else:
          path.write_text(content.strip() + '\n', encoding='utf-8')
  \<close>
  \<open>written c\<close> is what reaches the file; writing to a directory raises
  \<^verbatim>\<open>IsADirectoryError\<close>. A failed call keeps the directories it made.
\<close>

definition written :: "content \<Rightarrow> content" where
  "written c = (case c of Bytes b \<Rightarrow> Bytes b | Text s \<Rightarrow> Text (strip s @ [10]))"

definition write_file :: "fsys \<Rightarrow> path \<Rightarrow> content \<Rightarrow> fsys \<times> io_error option" where
  "write_file fs p c =
     (case mkdir_parents fs (parent p) of
        (fs1, Some e) \<Rightarrow> (fs1, Some e)
      | (fs1, None) \<Rightarrow>
          (case lookup fs1 p of
             Some Dir \<Rightarrow> (fs1, Some IsADirectoryError)
           | _ \<Rightarrow> ((p, File (written c)) # fs1, None)))"

text \<open>A sequence of \<^verbatim>\<open>write_file\<close> calls; the first exception ends it.\<close>

fun write_all :: "fsys \<Rightarrow> (path \<times> content) list \<Rightarrow> fsys \<times> io_error option" where
  "write_all fs [] = (fs, None)"
| "write_all fs ((p, c) # ws) =
     (case write_file fs p c of
        (fs1, Some e) \<Rightarrow> (fs1, Some e)
      | (fs1, None) \<Rightarrow> write_all fs1 ws)"

section \<open>JSON output\<close>

text \<open>The values \<^verbatim>\<open>generate\<close> passes to \<^verbatim>\<open>json.dumps\<close>; a dict keeps its insertion order.\<close>

datatype json = JInt int | JBool bool | JStr pystr | JList "json list"
  | JDict "(pystr \<times> json) list"

function dec_nat :: "nat \<Rightarrow> pystr" where
  "dec_nat n = (if n < 10 then [digit n] else dec_nat (n div 10) @ [digit n])"
  by pat_completeness auto
termination
  by (relation "measure id") auto

definition dec_int :: "int \<Rightarrow> pystr" where
  "dec_int i = (if i < 0 then lit ''-'' @ dec_nat (nat (- i)) else dec_nat (nat i))"

definition hex_digit :: "nat \<Rightarrow> codepoint" where
  "hex_digit n = (if n mod 16 < 10 then cp CHR ''0'' + n mod 16 else cp CHR ''a'' + (n mod 16 - 10))"

definition hex4 :: "nat \<Rightarrow> pystr" where
  "hex4 n = [hex_digit (n div 4096), hex_digit (n div 256), hex_digit (n div 16), hex_digit n]"

text \<open>
  The string encoder of \<^verbatim>\<open>json.dumps\<close> with \<^verbatim>\<open>ensure_ascii\<close>: printable ASCII stays,
  the quote, the backslash and five control characters have short escapes, everything
  else becomes \<^verbatim>\<open>\uXXXX\<close>, beyond the basic plane as a surrogate pair.
\<close>

definition json_escape :: "codepoint \<Rightarrow> pystr" where
  "json_escape c =
     (if c = 34 then [92, 34]
      else if c = 92 then [92, 92]
      else if c = 10 then [92, cp CHR ''n'']
      else if c = 13 then [92, cp CHR ''r'']
      else if c = 9 then [92, cp CHR ''t'']
      else if c = 8 then [92, cp CHR ''b'']
      else if c = 12 then [92, cp CHR ''f'']
      else if 32 \<le> c \<and> c \<le> 126 then [c]
      else if c < 65536 then [92, cp CHR ''u''] @ hex4 c
      else [92, cp CHR ''u''] @ hex4 (55296 + ((c - 65536) div 1024) mod 1024)
           @ [92, cp CHR ''u''] @ hex4 (56320 + (c - 65536) mod 1024))"

definition json_str :: "pystr \<Rightarrow> pystr" where
  "json_str s = [34] @ concat (map json_escape s) @ [34]"

definition nl_indent :: "nat \<Rightarrow> pystr" where
  "nl_indent lvl = 10 # replicate (2 * lvl) (cp CHR '' '')"

text \<open>\<^verbatim>\<open>json.dumps(obj, indent=2)\<close> at nesting depth \<open>lvl\<close>.\<close>

fun json_dumps_at :: "nat \<Rightarrow> json \<Rightarrow> pystr" where
  "json_dumps_at lvl (JInt i) = dec_int i"
| "json_dumps_at lvl (JBool b) = (if b then lit ''true'' else lit ''false'')"
| "json_dumps_at lvl (JStr s) = json_str s"
| "json_dumps_at lvl (JList xs) =
     (if xs = [] then lit ''[]''
      else lit ''['' @ nl_indent (Suc lvl)
           @ join (lit '','' @ nl_indent (Suc lvl)) (map (json_dumps_at (Suc lvl)) xs)
           @ nl_indent lvl @ lit '']'')"
| "json_dumps_at lvl (JDict kvs) =
     (if kvs = [] then lit ''{}''
      else lit ''{'' @ nl_indent (Suc lvl)
           @ join (lit '','' @ nl_indent (Suc lvl))
               (map (\<lambda>kv. json_str (fst kv) @ lit '': '' @ json_dumps_at (Suc lvl) (snd kv)) kvs)
           @ nl_indent lvl @ lit ''}'')"

definition json_dumps :: "json \<Rightarrow> pystr" where
  "json_dumps j = json_dumps_at 0 j"

text \<open>Reading a key of a dict.\<close>

definition json_get :: "json \<Rightarrow> pystr \<Rightarrow> json option" where
  "json_get j k = (case j of JDict kvs \<Rightarrow> map_of kvs k | _ \<Rightarrow> None)"

section \<open>Templates\<close>

text \<open>The locked versions.\<close>

definition LOCKED :: "(string \<times> pystr) list" where
  "LOCKED =
     [(''minecraft_version'', lit ''1.21.4''),
      (''yarn_mappings'', lit ''1.21.4+build.4''),
      (''loader_version'', lit ''0.18.4''),
      (''fabric_api_version'', lit ''0.119.4+1.21.4''),
      (''loom_version'', lit ''1.14.9''),
      (''recommended_gradle'', lit ''9.3.1''),
      (''java_version'', lit ''21'')]"

text \<open>
  \<^verbatim>\<open>LOCKED[k]\<close> and the lookup of a replacement field. Every key the source uses is
  bound where it is used, so the \<^verbatim>\<open>KeyError\<close> of a missing key cannot arise; the
  model gives the empty string there.
\<close>

definition env_get :: "(string \<times> pystr) list \<Rightarrow> string \<Rightarrow> pystr" where
  "env_get env k = (case map_of env k of Some v \<Rightarrow> v | None \<Rightarrow> [])"

text \<open>
  A format string of \<^verbatim>\<open>str.format\<close>, parsed: literal text (with \<^verbatim>\<open>{{\<close> and \<^verbatim>\<open>}}\<close>
  already read as braces) and replacement fields \<^verbatim>\<open>{name}\<close>.
\<close>

datatype piece = Lit string | Field string

definition NL :: piece where "NL = Lit [CHR 0x0A]"
definition SQ :: piece where "SQ = Lit [CHR 0x27]"
definition BS :: piece where "BS = Lit [CHR 0x5C]"

fun format_piece :: "(string \<times> pystr) list \<Rightarrow> piece \<Rightarrow> pystr" where
  "format_piece env (Lit s) = lit s"
| "format_piece env (Field k) = env_get env k"

definition format_tpl :: "(string \<times> pystr) list \<Rightarrow> piece list \<Rightarrow> pystr" where
  "format_tpl env tpl = concat (map (format_piece env) tpl)"

text \<open>
  The helper \<^verbatim>\<open>t\<close> of \<^verbatim>\<open>generate\<close>:
  \<^verbatim>\<open>template.format(**{**LOCKED, **kw}).strip()\<close>; a keyword hides a locked version
  of the same name.
\<close>

definition t_render :: "piece list \<Rightarrow> (string \<times> pystr) list \<Rightarrow> pystr" where
  "t_render template kw = strip (format_tpl (kw @ LOCKED) template)"

text \<open>The template of \<^verbatim>\<open>settings.gradle\<close> (source line 112).\<close>

definition tpl_settings_gradle :: "piece list" where
  \<open>tpl_settings_gradle =
    [NL,
     Lit ''        pluginManagement {'', NL,
     Lit ''            repositories {'', NL,
     Lit ''                maven { url = '', SQ, Lit ''https://maven.fabricmc.net/'', SQ, Lit '' }'', NL,
     Lit ''                gradlePluginPortal()'', NL,
     Lit ''            }'', NL,
     Lit ''        }'', NL,
     Lit ''        rootProject.name = '', SQ, Field ''project_name'', SQ, NL,
     Lit ''    '']\<close>

text \<open>The template of \<^verbatim>\<open>gradle.properties\<close> (source line 122).\<close>

definition tpl_gradle_properties :: "piece list" where
  \<open>tpl_gradle_properties =
    [NL,
     Lit ''        org.gradle.jvmargs=-Xmx2G -Dfile.encoding=UTF-8'', NL,
     Lit ''        org.gradle.parallel=true'', NL,
     Lit ''        minecraft_version='', Field ''minecraft_version'', NL,
     Lit ''        yarn_mappings='', Field ''yarn_mappings'', NL,
     Lit ''        loader_version='', Field ''loader_version'', NL,
     Lit ''        fabric_api_version='', Field ''fabric_api_version'', NL,
     Lit ''        loom_version='', Field ''loom_version'', NL,
     Lit ''        maven_group='', Field ''maven_group'', NL,
     Lit ''        archives_base_name='', Field ''mod_id'', NL,
     Lit ''        mod_version='', Field ''mod_version'', NL,
     Lit ''    '']\<close>

text \<open>The template of \<^verbatim>\<open>build.gradle\<close> (source line 135).\<close>

definition tpl_build_gradle :: "piece list" where
  \<open>tpl_build_gradle =
    [NL,
     Lit ''        plugins {'', NL,
     Lit ''            id '', SQ, Lit ''fabric-loom'', SQ, Lit '' version '', SQ, Field ''loom_version'', SQ, NL,
     Lit ''            id '', SQ, Lit ''maven-publish'', SQ, NL,
     Lit ''        }'', NL,
     Lit ''        version = project.mod_version'', NL,
     Lit ''        group = project.maven_group'', NL,
     Lit ''        base { archivesName = project.archives_base_name }'', NL,
     Lit ''        '', NL,
     Lit ''        repositories {'', NL,
     Lit ''            maven { url = '', SQ, Lit ''https://maven.fabricmc.net/'', SQ, Lit '' }'', NL,
     Lit ''            mavenCentral()'', NL,
     Lit ''        }'', NL,
     Lit ''        '', NL,
     Lit ''        dependencies {'', NL,
     Lit ''            minecraft "com.mojang:minecraft:${minecraft_version}"'', NL,
     Lit ''            mappings "net.fabricmc:yarn:${yarn_mappings}:v2"'', NL,
     Lit ''            modImplementation "net.fabricmc:fabric-loader:${loader_version}"'', NL,
     Lit ''            modImplementation "net.fabricmc.fabric-api:fabric-api:${fabric_api_version}"'', NL,
     Lit ''        }'', NL,
     Lit ''        '', NL,
     Lit ''        tasks.withType(JavaCompile).configureEach {'', NL,
     Lit ''            it.options.encoding = '', SQ, Lit ''UTF-8'', SQ, NL,
     Lit ''            it.options.release = '', Field ''java_version'', NL,
     Lit ''        }'', NL,
     Lit ''        '', NL,
     Lit ''        java {'', NL,
     Lit ''            toolchain { languageVersion = JavaLanguageVersion.of('', Field ''java_version'', Lit '') }'', NL,
     Lit ''            withSourcesJar()'', NL,
     Lit ''        }'', NL,
     Lit ''        '', NL,
     Lit ''        processResources {'', NL,
     Lit ''            inputs.property "version", project.version'', NL,
     Lit ''            filesMatching("fabric.mod.json") { expand "version": project.version }'', NL,
     Lit ''        }'', NL,
     Lit ''    '']\<close>

text \<open>The template of \<^verbatim>\<open>README.md\<close> (source line 174).\<close>

definition tpl_README_md :: "piece list" where
  \<open>tpl_README_md =
    [NL,
     Lit ''        # '', Field ''client_name'', Lit '' (Fabric '', Field ''minecraft_version'', Lit '')'', NL,
     Lit ''        '', NL,
     Lit ''        Run: `./gradlew runClient` (or `.'', BS, Lit ''gradlew.bat runClient` on Windows)'', NL,
     Lit ''        Build: `./gradlew build`'', NL,
     Lit ''        '', NL,
     Lit ''        Press Right Shift in-game to open GUI.'', NL,
     Lit ''    '']\<close>

text \<open>The template of \<^verbatim>\<open>CBClient.java\<close> (source line 228).\<close>

definition tpl_CBClient_java :: "piece list" where
  \<open>tpl_CBClient_java =
    [NL,
     Lit ''        package '', Field ''pkg'', Lit '';'', NL,
     Lit ''        import '', Field ''pkg'', Lit ''.module.ModuleManager;'', NL,
     Lit ''        import '', Field ''pkg'', Lit ''.gui.ClientScreen;'', NL,
     Lit ''        import net.fabricmc.api.ClientModInitializer;'', NL,
     Lit ''        import net.fabricmc.fabric.api.client.event.lifecycle.v1.ClientTickEvents;'', NL,
     Lit ''        import net.fabricmc.fabric.api.client.keybinding.v1.KeyBindingHelper;'', NL,
     Lit ''        import net.minecraft.client.option.KeyBinding;'', NL,
     Lit ''        import net.minecraft.client.util.InputUtil;'', NL,
     Lit ''        import net.minecraft.text.Text;'', NL,
     Lit ''        import org.lwjgl.glfw.GLFW;'', NL,
     Lit ''        import org.slf4j.Logger;'', NL,
     Lit ''        import org.slf4j.LoggerFactory;'', NL,
     Lit ''        '', NL,
     Lit ''        public class CBClient implements ClientModInitializer {'', NL,
     Lit ''            public static final String MOD_ID = "'', Field ''mod_id'', Lit ''";'', NL,
     Lit ''            public static final String CLIENT_NAME = "'', Field ''client_name'', Lit ''";'', NL,
     Lit ''            public static final Logger LOGGER = LoggerFactory.getLogger(MOD_ID);'', NL,
     Lit ''            private static KeyBinding openGuiKey;'', NL,
     Lit ''            '', NL,
     Lit ''            @Override'', NL,
     Lit ''            public void onInitializeClient() {'', NL,
     Lit ''                LOGGER.info("[{}] init", CLIENT_NAME);'', NL,
     Lit ''                ModuleManager.init();'', NL,
     Lit ''                openGuiKey = KeyBindingHelper.registerKeyBinding(new KeyBinding('', NL,
     Lit ''                    "key.'', Field ''mod_id'', Lit ''.open_gui", InputUtil.Type.KEYSYM,'', NL,
     Lit ''                    GLFW.GLFW_KEY_RIGHT_SHIFT, "category.'', Field ''mod_id'', Lit ''"));'', NL,
     Lit ''                ClientTickEvents.END_CLIENT_TICK.register(client -> {'', NL,
     Lit ''                    while (openGuiKey.wasPressed()) {'', NL,
     Lit ''                        if (client.currentScreen == null)'', NL,
     Lit ''                            client.setScreen(new ClientScreen(Text.of(CLIENT_NAME)));'', NL,
     Lit ''                    }'', NL,
     Lit ''                });'', NL,
     Lit ''            }'', NL,
     Lit ''        }'', NL,
     Lit ''    '']\<close>

text \<open>The template of \<^verbatim>\<open>Module.java\<close> (source line 266).\<close>

definition tpl_Module_java :: "piece list" where
  \<open>tpl_Module_java =
    [NL,
     Lit ''        package '', Field ''pkg'', Lit ''.module;'', NL,
     Lit ''        public abstract class Module {'', NL,
     Lit ''            private final String name;'', NL,
     Lit ''            private boolean enabled;'', NL,
     Lit ''            public Module(String name) { this.name = name; }'', NL,
     Lit ''            public String getName() { return name; }'', NL,
     Lit ''            public boolean isEnabled() { return enabled; }'', NL,
     Lit ''            public void setEnabled(boolean enabled) {'', NL,
     Lit ''                if (this.enabled != enabled) {'', NL,
     Lit ''                    this.enabled = enabled;'', NL,
     Lit ''                    if (enabled) onEnable(); else onDisable();'', NL,
     Lit ''                }'', NL,
     Lit ''            }'', NL,
     Lit ''            public void toggle() { setEnabled(!enabled); }'', NL,
     Lit ''            protected void onEnable() {}'', NL,
     Lit ''            protected void onDisable() {}'', NL,
     Lit ''        }'', NL,
     Lit ''    '']\<close>

text \<open>The template of \<^verbatim>\<open>ModuleManager.java\<close> (source line 286).\<close>

definition tpl_ModuleManager_java :: "piece list" where
  \<open>tpl_ModuleManager_java =
    [NL,
     Lit ''        package '', Field ''pkg'', Lit ''.module;'', NL,
     Lit ''        import java.util.*;'', NL,
     Lit ''        public final class ModuleManager {'', NL,
     Lit ''            private static final List<Module> MODULES = new ArrayList<>();'', NL,
     Lit ''            public static void init() { MODULES.add(new ExampleModule()); }'', NL,
     Lit ''            public static List<Module> all() { return Collections.unmodifiableList(MODULES); }'', NL,
     Lit ''        }'', NL,
     Lit ''    '']\<close>

text \<open>The template of \<^verbatim>\<open>ExampleModule.java\<close> (source line 296).\<close>

definition tpl_ExampleModule_java :: "piece list" where
  \<open>tpl_ExampleModule_java =
    [NL,
     Lit ''        package '', Field ''pkg'', Lit ''.module;'', NL,
     Lit ''        import '', Field ''pkg'', Lit ''.CBClient;'', NL,
     Lit ''        public class ExampleModule extends Module {'', NL,
     Lit ''            public ExampleModule() { super("Example"); }'', NL,
     Lit ''            @Override protected void onEnable() { CBClient.LOGGER.info("Example ON"); }'', NL,
     Lit ''            @Override protected void onDisable() { CBClient.LOGGER.info("Example OFF"); }'', NL,
     Lit ''        }'', NL,
     Lit ''    '']\<close>

text \<open>The template of \<^verbatim>\<open>ClientScreen.java\<close> (source line 307).\<close>

definition tpl_ClientScreen_java :: "piece list" where
  \<open>tpl_ClientScreen_java =
    [NL,
     Lit ''        package '', Field ''pkg'', Lit ''.gui;'', NL,
     Lit ''        import '', Field ''pkg'', Lit ''.module.*;'', NL,
     Lit ''        import net.minecraft.client.gui.screen.Screen;'', NL,
     Lit ''        import net.minecraft.client.gui.widget.ButtonWidget;'', NL,
     Lit ''        import net.minecraft.text.Text;'', NL,
     Lit ''        '', NL,
     Lit ''        public class ClientScreen extends Screen {'', NL,
     Lit ''            public ClientScreen(Text title) { super(title); }'', NL,
     Lit ''            @Override'', NL,
     Lit ''            protected void init() {'', NL,
     Lit ''                int y = 40, x = this.width / 2 - 100;'', NL,
     Lit ''                for (Module m : ModuleManager.all()) {'', NL,
     Lit ''                    ButtonWidget btn = ButtonWidget.builder(labelFor(m), b -> {'', NL,
     Lit ''                        m.toggle(); b.setMessage(labelFor(m));'', NL,
     Lit ''                    }).dimensions(x, y, 200, 20).build();'', NL,
     Lit ''                    this.addDrawableChild(btn);'', NL,
     Lit ''                    y += 24;'', NL,
     Lit ''                }'', NL,
     Lit ''                this.addDrawableChild(ButtonWidget.builder(Text.of("Close"), b -> this.close())'', NL,
     Lit ''                    .dimensions(x, y + 10, 200, 20).build());'', NL,
     Lit ''            }'', NL,
     Lit ''            private Text labelFor(Module m) {'', NL,
     Lit ''                return Text.of(m.getName() + " : " + (m.isEnabled() ? "ON" : "OFF"));'', NL,
     Lit ''            }'', NL,
     Lit ''        }'', NL,
     Lit ''    '']\<close>

text \<open>The template of \<^verbatim>\<open>MinecraftClientMixin.java\<close> (source line 336).\<close>

definition tpl_MinecraftClientMixin_java :: "piece list" where
  \<open>tpl_MinecraftClientMixin_java =
    [NL,
     Lit ''        package '', Field ''pkg'', Lit ''.mixin;'', NL,
     Lit ''        import '', Field ''pkg'', Lit ''.CBClient;'', NL,
     Lit ''        import net.minecraft.client.MinecraftClient;'', NL,
     Lit ''        import org.spongepowered.asm.mixin.Mixin;'', NL,
     Lit ''        import org.spongepowered.asm.mixin.injection.*;'', NL,
     Lit ''        import org.spongepowered.asm.mixin.injection.callback.CallbackInfoReturnable;'', NL,
     Lit ''        '', NL,
     Lit ''        @Mixin(MinecraftClient.class)'', NL,
     Lit ''        public class MinecraftClientMixin {'', NL,
     Lit ''            @Inject(method = "getWindowTitle", at = @At("HEAD"), cancellable = true)'', NL,
     Lit ''            private void cbclient$windowTitle(CallbackInfoReturnable<String> cir) {'', NL,
     Lit ''                cir.setReturnValue(CBClient.CLIENT_NAME + " | '', Field ''minecraft_version'', Lit ''");'', NL,
     Lit ''            }'', NL,
     Lit ''        }'', NL,
     Lit ''    '']\<close>
text \<open>
  The replacement fields of a template, and whether the keywords of a call of \<^verbatim>\<open>t\<close>,
  together with the locked versions, bind all of them.
\<close>

fun fields :: "piece list \<Rightarrow> string list" where
  "fields [] = []"
| "fields (Lit s # ps) = fields ps"
| "fields (Field k # ps) = k # fields ps"

definition binds_all :: "string list \<Rightarrow> piece list \<Rightarrow> bool" where
  "binds_all kw template = list_all (\<lambda>k. k \<in> set (kw @ map fst LOCKED)) (fields template)"

section \<open>The icon\<close>

text \<open>\<^verbatim>\<open>ICON_B64\<close>, a 16x16 PNG in base64.\<close>

definition ICON_B64 :: string where
  "ICON_B64 =
     ''iVBORw0KGgoAAAANSUhEUgAAABAAAAAQCAQAAAC1+jfqAAAAJElEQVR4AWP8z8Dwn4GBgYGJ'' @
     ''gYGBoYHhP0YGBgYGAEo5A6oE9g8pAAAAAElFTkSuQmCC''"

text \<open>
  \<^verbatim>\<open>base64.b64decode\<close>: characters outside the alphabet are skipped, four sextets give
  three bytes, and a shorter last group gives the bytes it holds in full. \<^verbatim>\<open>ICON_B64\<close>
  is 116 alphabet characters, so the padding error of the library cannot arise there.
\<close>

definition b64_val :: "char \<Rightarrow> nat option" where
  "b64_val c =
     (let n = (of_char c :: nat) in
      if 65 \<le> n \<and> n \<le> 90 then Some (n - 65)
      else if 97 \<le> n \<and> n \<le> 122 then Some (n - 71)
      else if 48 \<le> n \<and> n \<le> 57 then Some (n + 4)
      else if n = 43 then Some 62
      else if n = 47 then Some 63
      else None)"

fun b64_bytes :: "nat list \<Rightarrow> nat list" where
  "b64_bytes (a # b # c # d # r) =
     [a * 4 + b div 16, (b mod 16) * 16 + c div 4, (c mod 4) * 64 + d] @ b64_bytes r"
| "b64_bytes [a, b, c] = [a * 4 + b div 16, (b mod 16) * 16 + c div 4]"
| "b64_bytes [a, b] = [a * 4 + b div 16]"
| "b64_bytes r = []"

definition b64decode :: "string \<Rightarrow> nat list" where
  "b64decode s = b64_bytes (List.map_filter b64_val s)"

section \<open>Generation\<close>

text \<open>
  The target directory (source lines 99 to 102):
  \<^verbatim>\<open>
  root = meta.out_dir / meta.project_name
  if root.exists() and any(root.iterdir()):
      root = meta.out_dir / f"{meta.project_name}_{dt.datetime.now():%Y%m%d_%H%M%S}"
  \<close>
  \<^verbatim>\<open>iterdir\<close> of a regular file raises \<^verbatim>\<open>NotADirectoryError\<close>.
\<close>

definition resolve_root :: "datetime \<Rightarrow> fsys \<Rightarrow> Meta \<Rightarrow> io_error + path" where
  "resolve_root now fs meta =
     (let root = path_div (out_dir meta) (project_name meta) in
      case lookup fs root of
        None \<Rightarrow> Inr root
      | Some (File x) \<Rightarrow> Inl NotADirectoryError
      | Some Dir \<Rightarrow>
          if has_entries fs root
          then Inr (path_div (out_dir meta) (project_name meta @ lit ''_'' @ stamp now))
          else Inr root)"

text \<open>The dict written to \<^verbatim>\<open>fabric.mod.json\<close>.\<close>

definition manifest :: "unicode_db \<Rightarrow> Meta \<Rightarrow> json" where
  \<open>manifest U meta =
     JDict
       [(lit ''schemaVersion'', JInt 1),
        (lit ''id'', JStr (mod_id meta)),
        (lit ''version'', JStr (lit ''${version}'')),
        (lit ''name'', JStr (client_name meta)),
        (lit ''description'', JStr (description meta)),
        (lit ''authors'', JList (map JStr (authors meta))),
        (lit ''license'', JStr (license_name meta)),
        (lit ''icon'', JStr (lit ''assets/'' @ mod_id meta @ lit ''/icon.png'')),
        (lit ''environment'', JStr (lit ''client'')),
        (lit ''entrypoints'',
           JDict [(lit ''client'', JList [JStr (base_package U meta @ lit ''.CBClient'')])]),
        (lit ''mixins'', JList [JStr (mod_id meta @ lit ''.mixins.json'')]),
        (lit ''depends'',
           JDict
             [(lit ''fabricloader'', JStr (lit ''>=0.18.0'')),
              (lit ''minecraft'', JStr (lit ''='' @ env_get LOCKED ''minecraft_version'')),
              (lit ''java'', JStr (lit ''>='' @ env_get LOCKED ''java_version'')),
              (lit ''fabric-api'', JStr (lit ''*''))])]\<close>

text \<open>The dict written to \<^verbatim>\<open><mod_id>.mixins.json\<close>.\<close>

definition mixins_config :: "unicode_db \<Rightarrow> Meta \<Rightarrow> json" where
  \<open>mixins_config U meta =
     JDict
       [(lit ''required'', JBool True),
        (lit ''minVersion'', JStr (lit ''0.8'')),
        (lit ''package'', JStr (base_package U meta @ lit ''.mixin'')),
        (lit ''compatibilityLevel'', JStr (lit ''JAVA_'' @ env_get LOCKED ''java_version'')),
        (lit ''client'', JList [JStr (lit ''MinecraftClientMixin'')]),
        (lit ''injectors'', JDict [(lit ''defaultRequire'', JInt 1)])]\<close>

text \<open>
  The dict written to \<^verbatim>\<open>en_us.json\<close>. Its two keys differ in their first character,
  so neither replaces the other.
\<close>

definition lang_en_us :: "Meta \<Rightarrow> json" where
  \<open>lang_en_us meta =
     JDict
       [(lit ''key.'' @ mod_id meta @ lit ''.open_gui'',
           JStr (lit ''Open '' @ client_name meta @ lit '' GUI'')),
        (lit ''category.'' @ mod_id meta, JStr (client_name meta))]\<close>

text \<open>\<^verbatim>\<open>.gitignore\<close> is a plain string of the source.\<close>

definition gitignore :: pystr where
  "gitignore = concat (map (format_piece [])
     [Lit ''.gradle/'', NL, Lit ''build/'', NL, Lit ''out/'', NL, Lit ''.idea/'', NL,
      Lit ''*.iml'', NL, Lit ''run/'', NL, Lit ''logs/''])"

text \<open>
  The \<^verbatim>\<open>write_file\<close> calls of \<^verbatim>\<open>generate\<close> (source lines 112 to 351), in their order,
  each with its path and the content it is given; \<open>meta\<close> is the normalized record.
\<close>

definition file_writes :: "unicode_db \<Rightarrow> path \<Rightarrow> Meta \<Rightarrow> (path \<times> content) list" where
  "file_writes U root meta =
     (let res = path_div root (lit ''src/main/resources'');
          lang_dir = path_div res (lit ''assets/'' @ mod_id meta @ lit ''/lang'');
          java_root = path_div root (lit ''src/main/java/''
                        @ replace1 (cp CHR ''.'') (cp CHR ''/'') (base_package U meta));
          pkg = base_package U meta
      in
      [(path_div root (lit ''settings.gradle''),
          Text (t_render tpl_settings_gradle [(''project_name'', project_name meta)])),
       (path_div root (lit ''gradle.properties''),
          Text (t_render tpl_gradle_properties
                  [(''maven_group'', maven_group meta), (''mod_id'', mod_id meta),
                   (''mod_version'', mod_version meta)])),
       (path_div root (lit ''build.gradle''), Text (t_render tpl_build_gradle [])),
       (path_div root (lit ''.gitignore''), Text gitignore),
       (path_div root (lit ''README.md''),
          Text (t_render tpl_README_md [(''client_name'', client_name meta)])),
       (path_div res (lit ''fabric.mod.json''), Text (json_dumps (manifest U meta))),
       (path_div res (mod_id meta @ lit ''.mixins.json''),
          Text (json_dumps (mixins_config U meta))),
       (path_div lang_dir (lit ''en_us.json''), Text (json_dumps (lang_en_us meta))),
       (path_div res (lit ''assets/'' @ mod_id meta @ lit ''/icon.png''),
          Bytes (b64decode ICON_B64)),
       (path_div java_root (lit ''CBClient.java''),
          Text (t_render tpl_CBClient_java
                  [(''pkg'', pkg), (''mod_id'', mod_id meta),
                   (''client_name'', client_name meta)])),
       (path_div java_root (lit ''module/Module.java''),
          Text (t_render tpl_Module_java [(''pkg'', pkg)])),
       (path_div java_root (lit ''module/ModuleManager.java''),
          Text (t_render tpl_ModuleManager_java [(''pkg'', pkg)])),
       (path_div java_root (lit ''module/ExampleModule.java''),
          Text (t_render tpl_ExampleModule_java [(''pkg'', pkg)])),
       (path_div java_root (lit ''gui/ClientScreen.java''),
          Text (t_render tpl_ClientScreen_java [(''pkg'', pkg)])),
       (path_div java_root (lit ''mixin/MinecraftClientMixin.java''),
          Text (t_render tpl_MinecraftClientMixin_java [(''pkg'', pkg)]))])"

text \<open>
  \<^verbatim>\<open>generate(meta, log_cb)\<close>: normalize, choose the target, write the files, return the
  target. The result is the file system left behind together with the returned path or
  the exception; files written before a failure stay. The two progress lines go to the
  caller's sink and change nothing here; the sink is taken to return.
\<close>

definition generate :: "unicode_db \<Rightarrow> datetime \<Rightarrow> fsys \<Rightarrow> Meta \<Rightarrow> fsys \<times> (io_error + path)" where
  "generate U now fs m =
     (let meta = normalized U m in
      case resolve_root now fs meta of
        Inl e \<Rightarrow> (fs, Inl e)
      | Inr root \<Rightarrow>
          (case write_all fs (file_writes U root meta) of
             (fs1, Some e) \<Rightarrow> (fs1, Inl e)
           | (fs1, None) \<Rightarrow> (fs1, Inr root)))"

section \<open>Predicates and sample inputs of the statements\<close>

text \<open>A string that \<^verbatim>\<open>/\<close> appends to a path: it does not start with a slash.\<close>

definition relative :: "pystr \<Rightarrow> bool" where
  "relative s = (s = [] \<or> hd s \<noteq> cp CHR ''/'')"

text \<open>
  A string that ends in exactly one newline with no white space before it.
\<close>

definition one_final_newline :: "pystr \<Rightarrow> bool" where
  "one_final_newline s =
     (case rev s of
        [] \<Rightarrow> False
      | x # r \<Rightarrow> x = 10 \<and> (case r of [] \<Rightarrow> True | y # r' \<Rightarrow> \<not> isspace y))"

text \<open>
  A moment, and a file system in which the target of the default record exists and has an
  entry.
\<close>

definition sample_now :: datetime where
  "sample_now = \<lparr>year = 2026, month = 11, day = 3, hour = 9, minute = 5, second = 7\<rparr>"

definition sample_fs :: fsys where
  "sample_fs =
     [([lit ''work''], Dir),
      ([lit ''work'', lit ''CBClient_client''], Dir),
      ([lit ''work'', lit ''CBClient_client'', lit ''old.txt''], File (Text (lit ''x'')))]"

text \<open>The directory of the resources, below the target.\<close>

definition res_dir :: path where
  "res_dir = [lit ''src'', lit ''main'', lit ''resources'']"

text \<open>
  The paths \<open>generate\<close> writes for the default record, below a target \<open>root\<close>, and the
  first fifteen entries of a list.
\<close>

definition sample_rel :: "path \<Rightarrow> path list" where
  "sample_rel root =
     [root @ [lit ''settings.gradle''],
      root @ [lit ''gradle.properties''],
      root @ [lit ''build.gradle''],
      root @ [lit ''.gitignore''],
      root @ [lit ''README.md''],
      root @ [lit ''src'', lit ''main'', lit ''resources'', lit ''fabric.mod.json''],
      root @ [lit ''src'', lit ''main'', lit ''resources'',
        lit ''cbclient.mixins.json''],
      root @ [lit ''src'', lit ''main'', lit ''resources'', lit ''assets'',
        lit ''cbclient'', lit ''lang'', lit ''en_us.json''],
      root @ [lit ''src'', lit ''main'', lit ''resources'', lit ''assets'',
        lit ''cbclient'', lit ''icon.png''],
      root @ [lit ''src'', lit ''main'', lit ''java'', lit ''com'', lit ''example'',
        lit ''cbclient'', lit ''CBClient.java''],
      root @ [lit ''src'', lit ''main'', lit ''java'', lit ''com'', lit ''example'',
        lit ''cbclient'', lit ''module'', lit ''Module.java''],
      root @ [lit ''src'', lit ''main'', lit ''java'', lit ''com'', lit ''example'',
        lit ''cbclient'', lit ''module'', lit ''ModuleManager.java''],
      root @ [lit ''src'', lit ''main'', lit ''java'', lit ''com'', lit ''example'',
        lit ''cbclient'', lit ''module'', lit ''ExampleModule.java''],
      root @ [lit ''src'', lit ''main'', lit ''java'', lit ''com'', lit ''example'',
        lit ''cbclient'', lit ''gui'', lit ''ClientScreen.java''],
      root @ [lit ''src'', lit ''main'', lit ''java'', lit ''com'', lit ''example'',
        lit ''cbclient'', lit ''mixin'', lit ''MinecraftClientMixin.java'']]"

definition cells15 :: "'a list \<Rightarrow> 'a list" where
  "cells15 xs = [xs ! 0, xs ! 1, xs ! 2, xs ! 3, xs ! 4, xs ! 5, xs ! 6, xs ! 7, xs ! 8, xs ! 9,
                 xs ! 10, xs ! 11, xs ! 12, xs ! 13, xs ! 14]"

text \<open>
  The moments \<^verbatim>\<open>datetime.now()\<close> returns with a year of four digits: the fields of a
  calendar date and a time of day.
\<close>

definition valid_moment :: "datetime \<Rightarrow> bool" where
  "valid_moment t =
     (1000 \<le> year t \<and> year t \<le> 9999 \<and> 1 \<le> month t \<and> month t \<le> 12
      \<and> 1 \<le> day t \<and> day t \<le> 31 \<and> hour t < 24 \<and> minute t < 60 \<and> second t < 60)"

text \<open>A code point that the JSON string encoder leaves as it is.\<close>

definition plain :: "codepoint \<Rightarrow> bool" where
  "plain c = (32 \<le> c \<and> c \<le> 126 \<and> c \<noteq> 34 \<and> c \<noteq> 92)"

section \<open>Properties of the string operations\<close>

lemma cp_simps [simp]:
  "cp CHR ''a'' = 97" "cp CHR ''z'' = 122" "cp CHR ''A'' = 65" "cp CHR ''Z'' = 90"
  "cp CHR ''0'' = 48" "cp CHR ''9'' = 57" "cp CHR ''_'' = 95" "cp CHR ''-'' = 45"
  "cp CHR ''.'' = 46" "cp CHR '' '' = 32" "cp CHR ''c'' = 99" "cp CHR ''p'' = 112"
  by (simp_all add: cp_def)

lemma slug_char_ascii: "slug_char c \<Longrightarrow> is_ascii c \<and> \<not> is_AZ c"
  by (auto simp: slug_char_def is_az_def is_09_def is_sep_def is_ascii_def is_AZ_def)

lemma slug_char_alpha: "slug_char c \<Longrightarrow> isalpha U c = is_az c"
  using slug_char_ascii [of c] by (simp add: isalpha_def)

lemma set_collapse_runs: "set (collapse_runs P s) \<subseteq> set s"
proof (induction P s rule: collapse_runs.induct)
  case (1 P)
  then show ?case by simp
next
  case (2 P c cs)
  then show ?case using set_dropWhileD [of _ P cs] by auto
qed

lemma collapse_runs_Nil [simp]: "collapse_runs P s = [] \<longleftrightarrow> s = []"
  by (cases s) auto

lemma hd_collapse_runs: "hd (collapse_runs P s) = hd s"
  by (cases s) auto

lemma no_sep_run_Cons:
  "no_sep_run (c # ys) \<longleftrightarrow> (ys = [] \<or> (\<not> (is_sep c \<and> is_sep (hd ys)) \<and> no_sep_run ys))"
  by (cases ys) auto

lemma hd_dropWhile_not: "dropWhile P xs \<noteq> [] \<Longrightarrow> \<not> P (hd (dropWhile P xs))"
  using hd_dropWhile by blast

lemma no_sep_run_collapse: "no_sep_run (collapse_runs is_sep s)"
proof (induction "is_sep" s rule: collapse_runs.induct)
  case 1
  then show ?case by simp
next
  case (2 c cs)
  show ?case
  proof (cases "is_sep c")
    case True
    with 2 have ih: "no_sep_run (collapse_runs is_sep (dropWhile is_sep cs))" by simp
    show ?thesis
      using True ih hd_dropWhile_not [of is_sep cs]
      by (auto simp: no_sep_run_Cons hd_collapse_runs)
  next
    case False
    with 2 have ih: "no_sep_run (collapse_runs is_sep cs)" by simp
    show ?thesis using False ih by (simp add: no_sep_run_Cons)
  qed
qed

lemma no_sep_run_append: "no_sep_run (xs @ ys) \<Longrightarrow> no_sep_run xs \<and> no_sep_run ys"
proof (induction xs)
  case Nil
  then show ?case by simp
next
  case (Cons a xs)
  then show ?case by (cases xs) (auto simp: no_sep_run_Cons)
qed

lemma no_sep_run_dropWhile: "no_sep_run s \<Longrightarrow> no_sep_run (dropWhile P s)"
  using no_sep_run_append [of "takeWhile P s" "dropWhile P s"] by simp

lemma rstrip_of_prefix: "rstrip_of P s @ rev (takeWhile P (rev s)) = s"
proof -
  have "rev (takeWhile P (rev s) @ dropWhile P (rev s)) = s" by simp
  then show ?thesis unfolding rstrip_of_def rev_append by simp
qed

lemma no_sep_run_rstrip: "no_sep_run s \<Longrightarrow> no_sep_run (rstrip_of P s)"
  using no_sep_run_append [of "rstrip_of P s" "rev (takeWhile P (rev s))"]
  by (simp add: rstrip_of_prefix)

lemma no_sep_run_strip: "no_sep_run s \<Longrightarrow> no_sep_run (strip_of P s)"
  by (simp add: strip_of_def lstrip_of_def no_sep_run_rstrip no_sep_run_dropWhile)

lemma no_sep_run_take: "no_sep_run s \<Longrightarrow> no_sep_run (take n s)"
  using no_sep_run_append [of "take n s" "drop n s"] by simp

lemma set_rstrip_of: "set (rstrip_of P s) \<subseteq> set s"
  using set_dropWhileD [of _ P "rev s"] by (auto simp: rstrip_of_def)

lemma set_strip_of: "set (strip_of P s) \<subseteq> set s"
  using set_rstrip_of [of P "dropWhile P s"] set_dropWhileD [of _ P s]
  by (auto simp: strip_of_def lstrip_of_def)

lemma rstrip_of_Nil: "rstrip_of P s = [] \<longleftrightarrow> (\<forall>c \<in> set s. P c)"
  by (auto simp: rstrip_of_def dropWhile_eq_Nil_conv)

lemma hd_rstrip_of: "rstrip_of P s \<noteq> [] \<Longrightarrow> hd (rstrip_of P s) = hd s"
  using rstrip_of_prefix [of P s] by (metis hd_append2)

lemma last_rstrip_of: "rstrip_of P s \<noteq> [] \<Longrightarrow> \<not> P (last (rstrip_of P s))"
  using hd_dropWhile_not [of P "rev s"] by (simp add: rstrip_of_def last_rev)

lemma hd_strip_of: "strip_of P s \<noteq> [] \<Longrightarrow> \<not> P (hd (strip_of P s))"
proof -
  assume ne: "strip_of P s \<noteq> []"
  have "dropWhile P s \<noteq> []"
  proof
    assume e: "dropWhile P s = []"
    have "strip_of P s = []" unfolding strip_of_def lstrip_of_def rstrip_of_def e by simp
    with ne show False by simp
  qed
  then have "\<not> P (hd (dropWhile P s))" by (rule hd_dropWhile_not)
  with ne show ?thesis by (simp add: strip_of_def lstrip_of_def hd_rstrip_of)
qed

lemma last_strip_of: "strip_of P s \<noteq> [] \<Longrightarrow> \<not> P (last (strip_of P s))"
  by (simp add: strip_of_def last_rstrip_of)

lemma slug_match_iff:
  "slug_match s \<longleftrightarrow> s \<noteq> [] \<and> is_az (hd s) \<and> (\<forall>c \<in> set s. slug_char c) \<and> length s \<le> 64"
  by (cases s) (auto simp: slug_match_def list_all_iff slug_char_def)

lemma slugify_modid_s3: "slugify_modid U s = take 64 (slug_s3 U s)"
  by (simp add: slugify_modid_def slug_s3_def slug_s2_def Let_def lit_def)

lemma slug_s2_chars: "c \<in> set (slug_s2 U s) \<Longrightarrow> slug_char c"
proof -
  assume "c \<in> set (slug_s2 U s)"
  then have "c \<in> set (collapse_runs is_sep
      (filter slug_char (replace1 (cp CHR '' '') (cp CHR ''_'') (str_lower U s))))"
    unfolding slug_s2_def using set_strip_of by blast
  then have "c \<in> set (filter slug_char (replace1 (cp CHR '' '') (cp CHR ''_'') (str_lower U s)))"
    using set_collapse_runs by blast
  then show "slug_char c" by simp
qed

lemma slug_s2_no_run: "no_sep_run (slug_s2 U s)"
  unfolding slug_s2_def by (rule no_sep_run_strip) (rule no_sep_run_collapse)

lemma slug_s3_ne: "slug_s3 U s \<noteq> []"
  by (auto simp: slug_s3_def Let_def lit_def)

lemma slug_s3_hd: "is_az (hd (slug_s3 U s))"
proof (cases "slug_s2 U s = [] \<or> \<not> isalpha U (hd (slug_s2 U s))")
  case True
  then show ?thesis by (simp add: slug_s3_def Let_def lit_def is_az_def)
next
  case False
  then have "hd (slug_s2 U s) \<in> set (slug_s2 U s)" by simp
  then have "slug_char (hd (slug_s2 U s))" by (rule slug_s2_chars)
  with False show ?thesis by (simp add: slug_s3_def Let_def slug_char_alpha)
qed

lemma slug_s3_chars: "c \<in> set (slug_s3 U s) \<Longrightarrow> slug_char c"
  using slug_s2_chars [of c U s] set_dropWhileD [of c _ "slug_s2 U s"]
  by (auto simp: slug_s3_def Let_def lit_def lstrip_of_def slug_char_def is_az_def
           split: if_splits)

lemma slug_s3_no_run: "no_sep_run (slug_s3 U s)"
proof (cases "slug_s2 U s = [] \<or> \<not> isalpha U (hd (slug_s2 U s))")
  case True
  have "no_sep_run (dropWhile (\<lambda>c. is_09 c \<or> is_sep c) (slug_s2 U s))"
    by (rule no_sep_run_dropWhile) (rule slug_s2_no_run)
  with True show ?thesis
    by (simp add: slug_s3_def Let_def lit_def lstrip_of_def no_sep_run_Cons is_sep_def)
next
  case False
  then show ?thesis by (simp add: slug_s3_def Let_def slug_s2_no_run)
qed

lemma slug_take_match: "slug_match (take 64 (slug_s3 U s))"
  unfolding slug_match_iff
  using slug_s3_ne [of U s] slug_s3_hd [of U s] slug_s3_chars [of _ U s]
  by (auto dest: in_set_takeD)

text \<open>
  C1: for every input string, with any Unicode tables, \<open>slugify_modid\<close> returns a string
  that matches \<^verbatim>\<open>^[a-z][a-z0-9_-]{0,63}$\<close> (non-empty, first character a lower-case
  letter, all characters in \<^verbatim>\<open>[a-z0-9_-]\<close>, at most 64 characters) and has no two
  neighbouring separator characters.
\<close>

theorem slugify_modid_format: "slug_match (slugify_modid U s) \<and> no_sep_run (slugify_modid U s)"
  by (simp add: slugify_modid_s3 slug_take_match no_sep_run_take slug_s3_no_run)

theorem slugify_modid_format_witness:
  "slugify_modid ascii_db (lit ''123 Cool!!'') = lit ''ccool''
   \<and> slug_match (lit ''ccool'') \<and> no_sep_run (lit ''ccool'')"
proof -
  have e: "slugify_modid ascii_db (lit ''123 Cool!!'') = lit ''ccool''" by code_simp
  show ?thesis using slugify_modid_format [of ascii_db "lit ''123 Cool!!''"] unfolding e by simp
qed

subsection \<open>The namespace normalizer\<close>

lemma safe_pkg_parts:
  "safe_pkg U s = (let joined = join (lit ''.'') (map (pkg_part U) (pkg_parts U s))
                   in if joined = [] then lit ''com.example'' else joined)"
  by (simp add: safe_pkg_def pkg_parts_def Let_def)

lemma split_on_sets: "\<forall>p \<in> set (split_on d s). set p \<subseteq> set s - {d}"
  by (induction s) (auto split: list.splits)

lemma split_on_chars: "p \<in> set (split_on d s) \<Longrightarrow> c \<in> set p \<Longrightarrow> c \<in> set s \<and> c \<noteq> d"
  using split_on_sets [of d s] by auto

lemma pkg_parts_chars:
  assumes "p \<in> set (pkg_parts U s)" and "c \<in> set p"
  shows "seg_char c"
proof -
  let ?s1 = "filter pkg_char (replace1 (cp CHR '' '') (cp CHR ''_'')
              (replace1 (cp CHR ''-'') (cp CHR ''_'') (str_lower U s)))"
  from assms(1) have "p \<in> set (split_on (cp CHR ''.'') (strip_of is_dot (collapse_runs is_dot ?s1)))"
    by (simp add: pkg_parts_def)
  with assms(2) have c: "c \<in> set (strip_of is_dot (collapse_runs is_dot ?s1))" and nd: "c \<noteq> cp CHR ''.''"
    using split_on_chars by blast+
  from c have "c \<in> set (collapse_runs is_dot ?s1)" using set_strip_of by blast
  then have "c \<in> set ?s1" using set_collapse_runs by blast
  then have "pkg_char c" by simp
  with nd show ?thesis by (simp add: pkg_char_def seg_char_def)
qed

lemma pkg_parts_ne: "p \<in> set (pkg_parts U s) \<Longrightarrow> p \<noteq> []"
  by (simp add: pkg_parts_def)

lemma seg_char_alpha: "seg_char c \<Longrightarrow> isalpha U c = is_az c"
  by (auto simp: seg_char_def isalpha_def is_az_def is_09_def is_ascii_def is_AZ_def)

lemma pkg_part_good:
  assumes "p \<noteq> []" and "\<forall>c \<in> set p. seg_char c"
  shows "good_seg (pkg_part U p)"
proof -
  from assms have h: "seg_char (hd p)" by simp
  show ?thesis
    using assms seg_char_alpha [OF h, of U]
    by (auto simp: good_seg_def pkg_part_def lit_def list_all_iff seg_first_def seg_char_def is_az_def)
qed

lemma seg_char_not_dot: "\<not> seg_char 46"
  by (simp add: seg_char_def is_az_def is_09_def)

lemma ns_rest_append: "list_all seg_char q \<Longrightarrow> ns_rest (q @ r) = ns_rest r"
  by (induction q) (auto simp: seg_char_not_dot)

lemma ns_start_good: "good_seg q \<Longrightarrow> ns_start (q @ r) = ns_rest r"
  by (cases q) (auto simp: good_seg_def ns_rest_append)

lemma ns_start_join:
  "ps \<noteq> [] \<Longrightarrow> \<forall>q \<in> set ps. good_seg q \<Longrightarrow> ns_start (join (lit ''.'') ps)"
proof (induction "lit ''.''" ps rule: join.induct)
  case 1
  then show ?case by simp
next
  case (2 p)
  then show ?case using ns_start_good [of p "[]"] by simp
next
  case (3 p q ps)
  then have "ns_start (join (lit ''.'') (q # ps))" by simp
  moreover from 3 have "good_seg p" by simp
  ultimately show ?case by (simp add: ns_start_good) (simp add: lit_def)
qed

lemma join_Nil_good: "\<forall>q \<in> set ps. good_seg q \<Longrightarrow> join sep ps = [] \<longleftrightarrow> ps = []"
  by (induction sep ps rule: join.induct) (auto simp: good_seg_def)

lemma ns_start_fallback: "ns_start (lit ''com.example'')"
  by code_simp

text \<open>
  C3: for every input string, with any Unicode tables, \<open>safe_pkg\<close> returns a string
  that matches \<^verbatim>\<open>^[a-z_][a-z0-9_]*(\.[a-z_][a-z0-9_]*)*$\<close>: one or more non-empty
  segments over \<^verbatim>\<open>[a-z0-9_]\<close>, each starting with a letter or an underscore,
  separated by single dots; \<^verbatim>\<open>com.example\<close> when no segment survives.
\<close>

theorem safe_pkg_format: "ns_start (safe_pkg U s)"
proof -
  let ?ps = "map (pkg_part U) (pkg_parts U s)"
  have good: "\<forall>q \<in> set ?ps. good_seg q"
    using pkg_part_good pkg_parts_ne pkg_parts_chars by auto
  show ?thesis
  proof (cases "?ps = []")
    case True
    then show ?thesis by (simp add: safe_pkg_parts ns_start_fallback)
  next
    case False
    then have "ns_start (join (lit ''.'') ?ps)" using good by (rule ns_start_join)
    moreover have "join (lit ''.'') ?ps \<noteq> []" using False good by (simp add: join_Nil_good)
    ultimately show ?thesis by (simp add: safe_pkg_parts Let_def)
  qed
qed

theorem safe_pkg_format_witness:
  "safe_pkg ascii_db (lit ''Com-Example..9Test'') = lit ''com_example.p9test''
   \<and> ns_start (lit ''com_example.p9test'')"
proof -
  have e: "safe_pkg ascii_db (lit ''Com-Example..9Test'') = lit ''com_example.p9test''" by code_simp
  show ?thesis using safe_pkg_format [of ascii_db "lit ''Com-Example..9Test''"] unfolding e by simp
qed

subsection \<open>Where the slug normalizer is idempotent, and where it is not\<close>

lemma lower_at_plain: "is_ascii c \<Longrightarrow> \<not> is_AZ c \<Longrightarrow> lower_at U s (i, c) = [c]"
  by (simp add: lower_at_def)

lemma str_lower_plain:
  assumes "\<forall>c \<in> set s. is_ascii c \<and> \<not> is_AZ c"
  shows "str_lower U s = s"
proof -
  have a: "map (lower_at U s) (zip [0..<length s] s) = map (\<lambda>ic. [snd ic]) (zip [0..<length s] s)"
  proof (rule map_cong [OF refl])
    fix ic assume "ic \<in> set (zip [0..<length s] s)"
    then have "snd ic \<in> set s" using set_zip_rightD [of "fst ic" "snd ic"] by simp
    with assms show "lower_at U s ic = [snd ic]" by (cases ic) (simp add: lower_at_plain)
  qed
  have b: "concat (map (\<lambda>ic. [snd ic]) xs) = map snd xs" for xs :: "(nat \<times> codepoint) list"
    by (induction xs) auto
  show ?thesis unfolding str_lower_def a b by (simp add: map_snd_zip)
qed

lemma replace1_absent: "a \<notin> set s \<Longrightarrow> replace1 a b s = s"
  by (induction s) (auto simp: replace1_def)

lemma collapse_runs_no_run: "no_sep_run s \<Longrightarrow> collapse_runs is_sep s = s"
proof (induction s)
  case Nil
  then show ?case by simp
next
  case (Cons c cs)
  then show ?case by (cases cs) (auto simp: no_sep_run_Cons)
qed

lemma strip_of_clean:
  assumes "s \<noteq> []" and "\<not> P (hd s)" and "\<not> P (last s)"
  shows "strip_of P s = s"
proof -
  from assms have l: "dropWhile P s = s" by (cases s) auto
  from assms have "rev s \<noteq> []" and "\<not> P (hd (rev s))" by (simp_all add: hd_rev)
  then have "dropWhile P (rev s) = rev s" by (cases "rev s") auto
  with l show ?thesis by (simp add: strip_of_def lstrip_of_def rstrip_of_def)
qed

lemma slugify_modid_fixed:
  assumes m: "slug_match y" and r: "no_sep_run y" and e: "\<not> is_sep (last y)"
  shows "slugify_modid U y = y"
proof -
  from m have ne: "y \<noteq> []" and h: "is_az (hd y)" and cs: "\<forall>c \<in> set y. slug_char c"
    and len: "length y \<le> 64"
    by (simp_all add: slug_match_iff)
  have low: "str_lower U y = y" using cs slug_char_ascii by (intro str_lower_plain) blast
  have "cp CHR '' '' \<notin> set y"
    using cs by (auto simp: slug_char_def is_az_def is_09_def is_sep_def)
  then have rep: "replace1 (cp CHR '' '') (cp CHR ''_'') y = y" by (rule replace1_absent)
  have fil: "filter slug_char y = y" using cs by simp
  have col: "collapse_runs is_sep y = y" using r by (rule collapse_runs_no_run)
  have "\<not> is_sep (hd y)" using h by (auto simp: is_sep_def is_az_def)
  with ne e have str: "strip_of is_sep y = y" by (intro strip_of_clean)
  have s2: "slug_s2 U y = y" by (simp only: slug_s2_def low rep fil col str)
  from ne cs have "slug_char (hd y)" by simp
  with h have "isalpha U (hd y)" by (simp add: slug_char_alpha)
  with ne have "slug_s3 U y = y" by (simp add: slug_s3_def Let_def s2)
  with len show ?thesis by (simp add: slugify_modid_s3)
qed

lemma slugify_modid_idempotent_unless_cut:
  "\<not> is_sep (last (slugify_modid U s)) \<Longrightarrow>
     slugify_modid U (slugify_modid U s) = slugify_modid U s"
  using slug_take_match [of U s] slug_s3_no_run [of U s]
  by (intro slugify_modid_fixed) (simp_all add: slugify_modid_s3 no_sep_run_take)

lemma slug_s3_last: "\<not> is_sep (last (slug_s3 U s))"
proof (cases "slug_s2 U s = [] \<or> \<not> isalpha U (hd (slug_s2 U s))")
  case False
  then show ?thesis using last_strip_of [of is_sep] by (simp add: slug_s3_def Let_def slug_s2_def)
next
  case True
  let ?t = "dropWhile (\<lambda>c. is_09 c \<or> is_sep c) (slug_s2 U s)"
  show ?thesis
  proof (cases "?t = []")
    case True
    with \<open>slug_s2 U s = [] \<or> \<not> isalpha U (hd (slug_s2 U s))\<close> show ?thesis
      by (simp add: slug_s3_def Let_def lstrip_of_def lit_def is_sep_def)
  next
    case False
    then have ne: "slug_s2 U s \<noteq> []" by auto
    have "last ?t = last (slug_s2 U s)"
      using False by (metis last_appendR takeWhile_dropWhile_id)
    moreover have "\<not> is_sep (last (slug_s2 U s))"
      using ne last_strip_of [of is_sep] by (simp add: slug_s2_def)
    ultimately show ?thesis
      using True False by (simp add: slug_s3_def Let_def lstrip_of_def lit_def is_sep_def)
  qed
qed

lemma slugify_modid_idempotent_short:
  assumes "length (slug_s3 U s) \<le> 64"
  shows "slugify_modid U (slugify_modid U s) = slugify_modid U s"
proof -
  from assms have "slugify_modid U s = slug_s3 U s" by (simp add: slugify_modid_s3)
  then have "\<not> is_sep (last (slugify_modid U s))" using slug_s3_last [of U s] by simp
  then show ?thesis by (rule slugify_modid_idempotent_unless_cut)
qed

text \<open>
  C2: idempotence of \<open>slugify_modid\<close>, which fails where the cut falls on a separator.
  The normalizer trims separators and truncates to 64 characters afterwards, so a
  separator at position 64 of the trimmed string ends the result, and a second application
  trims it: at 63 letters \<open>a\<close>, an underscore and a \<open>b\<close> the first application gives
  63 letters and the underscore, the second only the 63 letters. The lemmas above give
  idempotence whenever the first result does not end in a separator.
\<close>

theorem slugify_modid_twice_differs:
  "slugify_modid U (replicate 63 (cp CHR ''a'') @ lit ''_b'') = replicate 63 (cp CHR ''a'') @ lit ''_''
   \<and> slugify_modid U (slugify_modid U (replicate 63 (cp CHR ''a'') @ lit ''_b''))
       = replicate 63 (cp CHR ''a'')"
  by code_simp

section \<open>Properties of the metadata normalization\<close>

lemma strip_of_Nil: "strip_of P s = [] \<longleftrightarrow> (\<forall>c \<in> set s. P c)"
proof
  assume "strip_of P s = []"
  then have "\<forall>c \<in> set (dropWhile P s). P c" by (simp add: strip_of_def lstrip_of_def rstrip_of_Nil)
  then have "dropWhile P s = []" using hd_dropWhile_not [of P s] by (cases "dropWhile P s") auto
  then show "\<forall>c \<in> set s. P c" by (simp add: dropWhile_eq_Nil_conv)
next
  assume "\<forall>c \<in> set s. P c"
  then have e: "dropWhile P s = []" by (simp add: dropWhile_eq_Nil_conv)
  show "strip_of P s = []" unfolding strip_of_def lstrip_of_def rstrip_of_def e by simp
qed

lemma strip_Nil_blank: "strip s = [] \<longleftrightarrow> blank s"
  by (simp add: strip_def strip_of_Nil blank_def list_all_iff)

lemma strip_trimmed: "trimmed (strip s)"
  using hd_strip_of [of isspace s] last_strip_of [of isspace s]
  by (auto simp: trimmed_def strip_def)

text \<open>
  C4: the namespace under which generated sources are placed, \<open>base_package\<close> of
  the normalized record, is \<open>safe_pkg\<close> applied again to the normalized namespace, a
  dot and the normalized module id.
\<close>

theorem base_package_normalized:
  "base_package U (normalized U m)
     = safe_pkg U (safe_pkg U (maven_group m) @ lit ''.'' @ slugify_modid U (mod_id m))"
  by (simp add: base_package_def normalized_def)

theorem base_package_normalized_witness:
  "base_package ascii_db (normalized ascii_db
       (default_meta\<lparr>maven_group := lit ''Com-Example'', mod_id := lit ''My-Mod 2''\<rparr>))
     = lit ''com_example.my_mod_2''
   \<and> safe_pkg ascii_db (lit ''Com-Example'') = lit ''com_example''
   \<and> slugify_modid ascii_db (lit ''My-Mod 2'') = lit ''my-mod_2''
   \<and> safe_pkg ascii_db (lit ''com_example.my-mod_2'') = lit ''com_example.my_mod_2''"
proof -
  have a: "safe_pkg ascii_db (lit ''Com-Example'') = lit ''com_example''" by code_simp
  have b: "slugify_modid ascii_db (lit ''My-Mod 2'') = lit ''my-mod_2''" by code_simp
  have c: "safe_pkg ascii_db (lit ''com_example.my-mod_2'') = lit ''com_example.my_mod_2''"
    by code_simp
  have d: "lit ''com_example'' @ lit ''.'' @ lit ''my-mod_2'' = lit ''com_example.my-mod_2''"
    by (simp add: lit_def)
  show ?thesis
    using base_package_normalized [of ascii_db
        "default_meta\<lparr>maven_group := lit ''Com-Example'', mod_id := lit ''My-Mod 2''\<rparr>"]
    by (simp add: a b c d)
qed

text \<open>
  C7: the normalized authors are the non-blank input authors, trimmed and in their order;
  when none is left (as for the input \<^verbatim>\<open>("",)\<close>) they are the one placeholder
  \<^verbatim>\<open>Unknown\<close>. The result is never empty, and each entry is non-empty and trimmed.
\<close>

theorem authors_normalized:
  "authors (normalized U m)
     = (let kept = map strip (filter (\<lambda>a. \<not> blank a) (authors m))
        in if kept = [] then [lit ''Unknown''] else kept)
   \<and> authors (normalized U m) \<noteq> []
   \<and> (\<forall>a \<in> set (authors (normalized U m)). a \<noteq> [] \<and> trimmed a)"
proof -
  let ?kept = "map strip (filter (\<lambda>a. \<not> blank a) (authors m))"
  have eq: "authors (normalized U m) = (if ?kept = [] then [lit ''Unknown''] else ?kept)"
    by (simp add: normalized_def or_else_def strip_Nil_blank)
  have ne: "authors (normalized U m) \<noteq> []" unfolding eq by simp
  have unk: "lit ''Unknown'' \<noteq> [] \<and> trimmed (lit ''Unknown'')"
    by (simp add: lit_def trimmed_def isspace_def cp_def)
  have "a \<noteq> [] \<and> trimmed a" if "a \<in> set ?kept" for a
  proof -
    from that obtain b where b: "a = strip b" "\<not> blank b" by auto
    then show ?thesis by (simp add: strip_Nil_blank strip_trimmed)
  qed
  with unk have "\<forall>a \<in> set (authors (normalized U m)). a \<noteq> [] \<and> trimmed a"
    unfolding eq by (simp split: if_splits)
  with eq ne show ?thesis by (simp add: Let_def)
qed

theorem authors_normalized_witness:
  "authors (normalized ascii_db
       (default_meta\<lparr>authors := [lit '' Ann '', lit '''', lit ''  '', lit ''Bob'']\<rparr>))
     = [lit ''Ann'', lit ''Bob'']
   \<and> authors (normalized ascii_db (default_meta\<lparr>authors := [lit '''']\<rparr>)) = [lit ''Unknown'']"
proof -
  let ?X = "[lit '' Ann '', lit '''', lit ''  '', lit ''Bob'']"
  let ?Y = "[lit '''']"
  have a: "(let kept = map strip (filter (\<lambda>a. \<not> blank a) ?X)
            in if kept = [] then [lit ''Unknown''] else kept) = [lit ''Ann'', lit ''Bob'']"
    by (simp add: blank_def strip_def strip_of_def lstrip_of_def rstrip_of_def lit_def cp_def
          isspace_def)
  have b: "(let kept = map strip (filter (\<lambda>a. \<not> blank a) ?Y)
            in if kept = [] then [lit ''Unknown''] else kept) = [lit ''Unknown'']"
    by (simp add: blank_def lit_def)
  have x: "authors (default_meta\<lparr>authors := ?X\<rparr>) = ?X" by simp
  have y: "authors (default_meta\<lparr>authors := ?Y\<rparr>) = ?Y" by simp
  have "authors (normalized ascii_db (default_meta\<lparr>authors := ?X\<rparr>))
          = (let kept = map strip (filter (\<lambda>a. \<not> blank a)
                          (authors (default_meta\<lparr>authors := ?X\<rparr>)))
             in if kept = [] then [lit ''Unknown''] else kept)"
    using authors_normalized [of ascii_db "default_meta\<lparr>authors := ?X\<rparr>"] by (rule conjunct1)
  then have 1: "authors (normalized ascii_db (default_meta\<lparr>authors := ?X\<rparr>))
                  = [lit ''Ann'', lit ''Bob'']"
    unfolding x a .
  have "authors (normalized ascii_db (default_meta\<lparr>authors := ?Y\<rparr>))
          = (let kept = map strip (filter (\<lambda>a. \<not> blank a)
                          (authors (default_meta\<lparr>authors := ?Y\<rparr>)))
             in if kept = [] then [lit ''Unknown''] else kept)"
    using authors_normalized [of ascii_db "default_meta\<lparr>authors := ?Y\<rparr>"] by (rule conjunct1)
  then have 2: "authors (normalized ascii_db (default_meta\<lparr>authors := ?Y\<rparr>)) = [lit ''Unknown'']"
    unfolding y b .
  from 1 2 show ?thesis by (rule conjI)
qed

subsection \<open>The description\<close>

lemma trimmed_not_blank: "s \<noteq> [] \<Longrightarrow> trimmed s \<Longrightarrow> \<not> blank s"
  by (cases s) (auto simp: trimmed_def blank_def)

lemma description_default:
  assumes "description m = []"
  shows "description (normalized U m) = strip (client_name m @ lit '' - Fabric client mod'')"
    and "\<not> blank (description (normalized U m))"
proof -
  show e: "description (normalized U m) = strip (client_name m @ lit '' - Fabric client mod'')"
    using assms by (simp add: normalized_def or_else_def)
  have "\<not> blank (client_name m @ lit '' - Fabric client mod'')"
    by (simp add: blank_def lit_def cp_def isspace_def)
  then have "strip (client_name m @ lit '' - Fabric client mod'') \<noteq> []"
    by (simp add: strip_Nil_blank)
  then show "\<not> blank (description (normalized U m))"
    unfolding e using strip_trimmed by (rule trimmed_not_blank)
qed

lemma description_kept:
  assumes "\<not> blank (description m)"
  shows "description (normalized U m) = strip (description m)"
    and "description (normalized U m) \<noteq> []"
proof -
  from assms have "description m \<noteq> []" by (auto simp: blank_def)
  then show e: "description (normalized U m) = strip (description m)"
    by (simp add: normalized_def or_else_def)
  from assms show "description (normalized U m) \<noteq> []" unfolding e by (simp add: strip_Nil_blank)
qed

text \<open>
  C5: the default for a blank description, which a description of white space does not
  get. The fallback is chosen before the description is trimmed, so only the empty
  description takes it (\<open>description_default\<close>): a description of one space is blank, is
  kept, and is then trimmed to the empty string. A description that is not blank is kept
  trimmed (\<open>description_kept\<close>). The other text fields trim first and fall back
  afterwards.
\<close>

theorem description_of_spaces_is_empty:
  "blank (lit '' '') \<and> description (normalized U (m\<lparr>description := lit '' ''\<rparr>)) = []"
  by (simp add: normalized_def or_else_def lit_def cp_def blank_def isspace_def
        strip_def strip_of_def lstrip_of_def rstrip_of_def)

section \<open>Properties of paths and files\<close>

lemma split_on_absent: "d \<notin> set s \<Longrightarrow> split_on d s = [s]"
  by (induction s) auto

lemma split_on_append: "d \<notin> set a \<Longrightarrow> split_on d (a @ d # b) = a # split_on d b"
  by (induction a) auto

lemma path_parts_single:
  "cp CHR ''/'' \<notin> set s \<Longrightarrow> path_parts s = (if s = [] \<or> s = lit ''.'' then [] else [s])"
  by (simp add: path_parts_def split_on_absent)

lemma path_div_relative: "relative s \<Longrightarrow> path_div p s = p @ path_parts s"
  by (auto simp: relative_def path_div_def)

lemma relative_absent: "cp CHR ''/'' \<notin> set s \<Longrightarrow> relative s"
  by (cases s) (auto simp: relative_def)

lemma set_strip: "set (strip s) \<subseteq> set s"
  unfolding strip_def by (rule set_strip_of)

lemma folder_char_not_slash: "\<not> folder_char U (cp CHR ''/'')"
  by (simp add: folder_char_def is_word_def is_ascii_def is_az_def is_AZ_def is_09_def cp_def)

lemma project_name_normalized:
  "project_name (normalized U m) \<noteq> []"
  "cp CHR ''/'' \<notin> set (project_name (normalized U m))"
proof -
  show "project_name (normalized U m) \<noteq> []"
    by (simp add: normalized_def or_else_def lit_def)
  have "cp CHR ''/'' \<notin> set (strip (filter (folder_char U) (project_name m)))"
    using set_strip [of "filter (folder_char U) (project_name m)"] folder_char_not_slash [of U]
    by auto
  moreover have "cp CHR ''/'' \<notin> set (lit ''CBClient'')" by (simp add: lit_def cp_def)
  ultimately show "cp CHR ''/'' \<notin> set (project_name (normalized U m))"
    by (simp add: normalized_def or_else_def)
qed

lemma digit_range: "48 \<le> digit n \<and> digit n \<le> 57"
  by (simp add: digit_def cp_def)

lemma stamp_chars: "c \<in> set (stamp now) \<Longrightarrow> c = 95 \<or> (48 \<le> c \<and> c \<le> 57)"
  using digit_range by (auto simp: stamp_def pad2_def pad4_def lit_def cp_def)

lemma stamp_no_slash: "cp CHR ''/'' \<notin> set (stamp now)"
  using stamp_chars [of "cp CHR ''/''" now] by (auto simp: cp_def)

lemma alt_differs:
  assumes ne: "pn \<noteq> []" and ns: "cp CHR ''/'' \<notin> set pn"
  shows "path_div out (pn @ lit ''_'' @ stamp now) \<noteq> path_div out pn"
proof -
  let ?alt = "pn @ lit ''_'' @ stamp now"
  have a: "cp CHR ''/'' \<notin> set ?alt" using ns stamp_no_slash by (simp add: lit_def cp_def)
  have len: "length ?alt > length pn" by (simp add: lit_def)
  from ne len have g1: "length ?alt > 1" by (cases pn) auto
  have nd: "?alt \<noteq> lit ''.''"
  proof
    assume "?alt = lit ''.''"
    then have "length ?alt = length (lit ''.'')" by (rule arg_cong)
    with g1 show False by (simp add: lit_def)
  qed
  from ne have ne': "?alt \<noteq> []" by simp
  have l: "path_div out ?alt = out @ [?alt]"
    using a nd ne' by (simp add: path_div_relative relative_absent path_parts_single del: append_assoc)
  have r: "path_div out pn = out @ (if pn = lit ''.'' then [] else [pn])"
    using ns ne by (simp add: path_div_relative relative_absent path_parts_single)
  from len have "?alt \<noteq> pn" by auto
  then show ?thesis unfolding l r by auto
qed

lemma generate_target:
  assumes "generate U now fs m = (fs', Inr r)"
  shows "resolve_root now fs (normalized U m) = Inr r"
    and "write_all fs (file_writes U r (normalized U m)) = (fs', None)"
  using assms
  by (auto simp: generate_def Let_def split: sum.splits prod.splits option.splits)

lemma one_final_newline_strip: "one_final_newline (strip c @ [10])"
proof (cases "strip c" rule: rev_cases)
  case Nil
  then show ?thesis by (simp add: one_final_newline_def)
next
  case (snoc ys y)
  then have "strip_of isspace c \<noteq> []" and "last (strip_of isspace c) = y"
    by (simp_all add: strip_def)
  then have "\<not> isspace y" using last_strip_of [of isspace c] by simp
  with snoc show ?thesis by (simp add: one_final_newline_def)
qed

text \<open>
  C9: when \<open>write_file\<close> succeeds on a text \<open>c\<close>, the file at the path holds
  \<^verbatim>\<open>c.strip() + '\n'\<close>: it ends in one newline, and what precedes the newline is empty
  or ends in a character that is not white space.
\<close>

theorem write_file_text:
  assumes "write_file fs p (Text c) = (fs', None)"
  shows "lookup fs' p = Some (File (Text (strip c @ [10])))
         \<and> one_final_newline (strip c @ [10])"
proof -
  obtain fs1 where m: "mkdir_parents fs (parent p) = (fs1, None)"
    and w: "fs' = (p, File (written (Text c))) # fs1" and l: "lookup fs1 p \<noteq> Some Dir"
    using assms
    by (auto simp: write_file_def split: prod.splits option.splits node.splits)
  from l have "p \<noteq> []" by (auto simp: lookup_def)
  then have "lookup fs' p = Some (File (Text (strip c @ [10])))"
    unfolding w by (simp add: lookup_def written_def)
  then show ?thesis using one_final_newline_strip by simp
qed

theorem write_file_text_witness:
  "write_file [] [lit ''d'', lit ''f.txt''] (Text (lit ''  hi  '' @ [10, 10]))
     = ([([lit ''d'', lit ''f.txt''], File (Text (lit ''hi'' @ [10]))), ([lit ''d''], Dir)], None)
   \<and> lookup [([lit ''d'', lit ''f.txt''], File (Text (lit ''hi'' @ [10]))), ([lit ''d''], Dir)]
        [lit ''d'', lit ''f.txt''] = Some (File (Text (lit ''hi'' @ [10])))
   \<and> one_final_newline (lit ''hi'' @ [10])"
proof -
  have s: "strip (lit ''  hi  '' @ [10, 10]) = lit ''hi''"
    by (simp add: strip_def strip_of_def lstrip_of_def rstrip_of_def lit_def cp_def isspace_def)
  have e: "write_file [] [lit ''d'', lit ''f.txt''] (Text (lit ''  hi  '' @ [10, 10]))
     = ([([lit ''d'', lit ''f.txt''], File (Text (lit ''hi'' @ [10]))), ([lit ''d''], Dir)], None)"
    by (simp add: write_file_def mkdir_parents_def parent_def lookup_def written_def s)
  show ?thesis using write_file_text [OF e] e unfolding s by simp
qed

section \<open>No template misses a key\<close>

text \<open>
  Each call of \<^verbatim>\<open>t\<close> in \<^verbatim>\<open>generate\<close> passes keywords that, with the locked versions,
  bind every replacement field of its template, so \<^verbatim>\<open>str.format\<close> never raises there.
\<close>

lemma template_fields_bound:
  "binds_all [''project_name''] tpl_settings_gradle"
  "binds_all [''maven_group'', ''mod_id'', ''mod_version''] tpl_gradle_properties"
  "binds_all [] tpl_build_gradle"
  "binds_all [''client_name''] tpl_README_md"
  "binds_all [''pkg'', ''mod_id'', ''client_name''] tpl_CBClient_java"
  "binds_all [''pkg''] tpl_Module_java"
  "binds_all [''pkg''] tpl_ModuleManager_java"
  "binds_all [''pkg''] tpl_ExampleModule_java"
  "binds_all [''pkg''] tpl_ClientScreen_java"
  "binds_all [''pkg''] tpl_MinecraftClientMixin_java"
  by code_simp+

section \<open>Properties of the generated tree\<close>

lemma path_parts_cons:
  assumes "cp CHR ''/'' \<notin> set a"
  shows "path_parts (a @ cp CHR ''/'' # b)
           = (if a = [] \<or> a = lit ''.'' then [] else [a]) @ path_parts b"
  using assms by (simp add: path_parts_def split_on_append)

lemma path_parts_res: "path_parts (lit ''src/main/resources'') = res_dir"
  by (simp add: path_parts_def res_dir_def lit_def cp_def)

lemma path_parts_java:
  "path_parts (lit ''src/main/java/'' @ x) = [lit ''src'', lit ''main'', lit ''java''] @ path_parts x"
proof -
  have e: "lit ''src/main/java/'' @ x
          = lit ''src'' @ cp CHR ''/'' # (lit ''main'' @ cp CHR ''/'' # (lit ''java'' @ cp CHR ''/'' # x))"
    by (simp add: lit_def cp_def)
  have s: "cp CHR ''/'' \<notin> set (lit ''src'')" "cp CHR ''/'' \<notin> set (lit ''main'')"
    "cp CHR ''/'' \<notin> set (lit ''java'')" "lit ''src'' \<noteq> []" "lit ''main'' \<noteq> []"
    "lit ''java'' \<noteq> []" "lit ''src'' \<noteq> lit ''.''" "lit ''main'' \<noteq> lit ''.''"
    "lit ''java'' \<noteq> lit ''.''"
    by (simp_all add: lit_def cp_def)
  show ?thesis unfolding e by (simp add: path_parts_cons s)
qed

lemma path_parts_assets:
  assumes "x \<noteq> []" and "cp CHR ''/'' \<notin> set x" and "x \<noteq> lit ''.''"
  shows "path_parts (lit ''assets/'' @ x @ lit ''/lang'') = [lit ''assets'', x, lit ''lang'']"
    and "path_parts (lit ''assets/'' @ x @ lit ''/icon.png'') = [lit ''assets'', x, lit ''icon.png'']"
proof -
  have a: "lit ''assets/'' @ x @ lit ''/lang'' = lit ''assets'' @ cp CHR ''/'' # (x @ cp CHR ''/'' # lit ''lang'')"
    by (simp add: lit_def cp_def)
  have b: "lit ''assets/'' @ x @ lit ''/icon.png''
             = lit ''assets'' @ cp CHR ''/'' # (x @ cp CHR ''/'' # lit ''icon.png'')"
    by (simp add: lit_def cp_def)
  have l: "path_parts (lit ''lang'') = [lit ''lang'']"
    and i: "path_parts (lit ''icon.png'') = [lit ''icon.png'']"
    by (simp_all add: path_parts_def lit_def cp_def)
  have s: "cp CHR ''/'' \<notin> set (lit ''assets'')" "lit ''assets'' \<noteq> []" "lit ''assets'' \<noteq> lit ''.''"
    by (simp_all add: lit_def cp_def)
  show "path_parts (lit ''assets/'' @ x @ lit ''/lang'') = [lit ''assets'', x, lit ''lang'']"
    unfolding a using assms s by (simp add: path_parts_cons l)
  show "path_parts (lit ''assets/'' @ x @ lit ''/icon.png'') = [lit ''assets'', x, lit ''icon.png'']"
    unfolding b using assms s by (simp add: path_parts_cons i)
qed

lemma relative_front: "s \<noteq> [] \<Longrightarrow> hd s \<noteq> cp CHR ''/'' \<Longrightarrow> relative (s @ x)"
  by (cases s) (auto simp: relative_def)

lemma relative_lits:
  "relative (lit ''src/main/resources'')" "relative (lit ''src/main/java/'' @ x)"
  "relative (lit ''assets/'' @ x)" "relative (lit ''settings.gradle'')"
  "relative (lit ''gradle.properties'')" "relative (lit ''build.gradle'')"
  "relative (lit ''.gitignore'')" "relative (lit ''README.md'')"
  "relative (lit ''fabric.mod.json'')" "relative (lit ''en_us.json'')"
  "relative (lit ''CBClient.java'')" "relative (lit ''module/Module.java'')"
  "relative (lit ''module/ModuleManager.java'')" "relative (lit ''module/ExampleModule.java'')"
  "relative (lit ''gui/ClientScreen.java'')" "relative (lit ''mixin/MinecraftClientMixin.java'')"
  by (simp_all add: relative_def lit_def cp_def)

lemma path_parts_names:
  "path_parts (lit ''settings.gradle'') = [lit ''settings.gradle'']"
  "path_parts (lit ''gradle.properties'') = [lit ''gradle.properties'']"
  "path_parts (lit ''build.gradle'') = [lit ''build.gradle'']"
  "path_parts (lit ''.gitignore'') = [lit ''.gitignore'']"
  "path_parts (lit ''README.md'') = [lit ''README.md'']"
  "path_parts (lit ''fabric.mod.json'') = [lit ''fabric.mod.json'']"
  "path_parts (lit ''en_us.json'') = [lit ''en_us.json'']"
  "path_parts (lit ''CBClient.java'') = [lit ''CBClient.java'']"
  "path_parts (lit ''module/Module.java'') = [lit ''module'', lit ''Module.java'']"
  "path_parts (lit ''module/ModuleManager.java'') = [lit ''module'', lit ''ModuleManager.java'']"
  "path_parts (lit ''module/ExampleModule.java'') = [lit ''module'', lit ''ExampleModule.java'']"
  "path_parts (lit ''gui/ClientScreen.java'') = [lit ''gui'', lit ''ClientScreen.java'']"
  "path_parts (lit ''mixin/MinecraftClientMixin.java'') = [lit ''mixin'', lit ''MinecraftClientMixin.java'']"
  by (simp_all add: path_parts_def lit_def cp_def)

text \<open>What the paths need of the module id: a single component.\<close>

lemma slug_component:
  "slugify_modid U s \<noteq> []" "cp CHR ''/'' \<notin> set (slugify_modid U s)"
  "slugify_modid U s \<noteq> lit ''.''" "hd (slugify_modid U s) \<noteq> cp CHR ''/''"
proof -
  have m: "slug_match (take 64 (slug_s3 U s))" by (rule slug_take_match)
  then have ne: "slugify_modid U s \<noteq> []" and h: "is_az (hd (slugify_modid U s))"
    and cs: "\<forall>c \<in> set (slugify_modid U s). slug_char c"
    by (simp_all add: slug_match_iff slugify_modid_s3)
  show "slugify_modid U s \<noteq> []" by (rule ne)
  show "cp CHR ''/'' \<notin> set (slugify_modid U s)"
    using cs by (auto simp: slug_char_def is_az_def is_09_def is_sep_def cp_def)
  show "hd (slugify_modid U s) \<noteq> cp CHR ''/''" using h by (auto simp: is_az_def cp_def)
  show "slugify_modid U s \<noteq> lit ''.''"
    using h ne by (cases "slugify_modid U s") (auto simp: lit_def is_az_def cp_def)
qed

lemma file_writes_paths:
  assumes ne: "mod_id meta \<noteq> []" and ns: "cp CHR ''/'' \<notin> set (mod_id meta)"
    and nd: "mod_id meta \<noteq> lit ''.''"
  shows "map fst (file_writes U root meta) =
    (let java = [lit ''src'', lit ''main'', lit ''java'']
                  @ path_parts (replace1 (cp CHR ''.'') (cp CHR ''/'') (base_package U meta)) in
     [root @ [lit ''settings.gradle''], root @ [lit ''gradle.properties''],
      root @ [lit ''build.gradle''], root @ [lit ''.gitignore''], root @ [lit ''README.md''],
      root @ res_dir @ [lit ''fabric.mod.json''],
      root @ res_dir @ [mod_id meta @ lit ''.mixins.json''],
      root @ res_dir @ [lit ''assets'', mod_id meta, lit ''lang'', lit ''en_us.json''],
      root @ res_dir @ [lit ''assets'', mod_id meta, lit ''icon.png''],
      root @ java @ [lit ''CBClient.java''],
      root @ java @ [lit ''module'', lit ''Module.java''],
      root @ java @ [lit ''module'', lit ''ModuleManager.java''],
      root @ java @ [lit ''module'', lit ''ExampleModule.java''],
      root @ java @ [lit ''gui'', lit ''ClientScreen.java''],
      root @ java @ [lit ''mixin'', lit ''MinecraftClientMixin.java'']])"
proof -
  have h: "hd (mod_id meta) \<noteq> cp CHR ''/''" using ne ns by (cases "mod_id meta") auto
  have r: "relative (mod_id meta @ lit ''.mixins.json'')" using ne h by (rule relative_front)
  have "cp CHR ''/'' \<notin> set (mod_id meta @ lit ''.mixins.json'')"
    using ns by (simp add: lit_def cp_def)
  moreover have "mod_id meta @ lit ''.mixins.json'' \<noteq> lit ''.''"
    using ne by (cases "mod_id meta") (auto simp: lit_def)
  ultimately have mx: "path_parts (mod_id meta @ lit ''.mixins.json'') = [mod_id meta @ lit ''.mixins.json'']"
    using ne by (simp add: path_parts_single)
  show ?thesis
    by (simp add: file_writes_def Let_def path_div_relative relative_lits r mx path_parts_res
          path_parts_java path_parts_assets [OF ne ns nd] path_parts_names)
qed

lemma file_writes_contents: "map snd (file_writes U r1 meta) = map snd (file_writes U r2 meta)"
  by (simp add: file_writes_def Let_def)

lemma file_writes_length: "length (file_writes U root meta) = 15"
  by (simp add: file_writes_def Let_def)

lemma file_writes_under_root:
  assumes "mod_id meta \<noteq> []" and "cp CHR ''/'' \<notin> set (mod_id meta)" and "mod_id meta \<noteq> lit ''.''"
  shows "file_writes U root meta = map (\<lambda>(q, c). (root @ q, c)) (file_writes U [] meta)"
proof (rule pair_list_eqI)
  have "map fst (map (\<lambda>(q, c). (root @ q, c)) (file_writes U [] meta))
          = map ((@) root) (map fst (file_writes U [] meta))"
    by (simp add: case_prod_unfold comp_def)
  then show "map fst (file_writes U root meta)
               = map fst (map (\<lambda>(q, c). (root @ q, c)) (file_writes U [] meta))"
    by (simp add: file_writes_paths [OF assms] Let_def)
  have "map snd (map (\<lambda>(q, c). (root @ q, c)) (file_writes U [] meta))
          = map snd (file_writes U [] meta)"
    by (simp add: case_prod_unfold comp_def)
  then show "map snd (file_writes U root meta)
               = map snd (map (\<lambda>(q, c). (root @ q, c)) (file_writes U [] meta))"
    using file_writes_contents [of U root meta "[]"] by simp
qed

lemma file_writes_nth:
  assumes "mod_id meta \<noteq> []" and "cp CHR ''/'' \<notin> set (mod_id meta)" and "mod_id meta \<noteq> lit ''.''"
  shows "file_writes U root meta ! 5
           = (root @ res_dir @ [lit ''fabric.mod.json''], Text (json_dumps (manifest U meta)))"
    and "file_writes U root meta ! 6
           = (root @ res_dir @ [mod_id meta @ lit ''.mixins.json''],
              Text (json_dumps (mixins_config U meta)))"
    and "file_writes U root meta ! 8
           = (root @ res_dir @ [lit ''assets'', mod_id meta, lit ''icon.png''],
              Bytes (b64decode ICON_B64))"
proof -
  have f: "fst (file_writes U root meta ! i) = map fst (file_writes U root meta) ! i"
    if "i < 15" for i
    using that by (simp add: file_writes_length)
  have s5: "snd (file_writes U root meta ! 5) = Text (json_dumps (manifest U meta))"
    and s6: "snd (file_writes U root meta ! 6) = Text (json_dumps (mixins_config U meta))"
    and s8: "snd (file_writes U root meta ! 8) = Bytes (b64decode ICON_B64)"
    by (simp_all add: file_writes_def Let_def)
  have f5: "fst (file_writes U root meta ! 5) = root @ res_dir @ [lit ''fabric.mod.json'']"
    and f6: "fst (file_writes U root meta ! 6) = root @ res_dir @ [mod_id meta @ lit ''.mixins.json'']"
    and f8: "fst (file_writes U root meta ! 8)
               = root @ res_dir @ [lit ''assets'', mod_id meta, lit ''icon.png'']"
    by (simp_all add: f file_writes_paths [OF assms] Let_def)
  show "file_writes U root meta ! 5
           = (root @ res_dir @ [lit ''fabric.mod.json''], Text (json_dumps (manifest U meta)))"
    using f5 s5 by (simp add: prod_eq_iff)
  show "file_writes U root meta ! 6
           = (root @ res_dir @ [mod_id meta @ lit ''.mixins.json''],
              Text (json_dumps (mixins_config U meta)))"
    using f6 s6 by (simp add: prod_eq_iff)
  show "file_writes U root meta ! 8
           = (root @ res_dir @ [lit ''assets'', mod_id meta, lit ''icon.png''],
              Bytes (b64decode ICON_B64))"
    using f8 s8 by (simp add: prod_eq_iff)
qed

lemma manifest_icon:
  "json_get (manifest U meta) (lit ''icon'')
     = Some (JStr (join (lit ''/'') [lit ''assets'', mod_id meta, lit ''icon.png'']))"
  by (simp add: json_get_def manifest_def lit_def cp_def)

lemma manifest_mixins:
  "json_get (manifest U meta) (lit ''mixins'') = Some (JList [JStr (mod_id meta @ lit ''.mixins.json'')])"
  by (simp add: json_get_def manifest_def lit_def cp_def)

section \<open>Files after a run\<close>

lemma mkdir_from_keeps:
  "mkdir_from fs pre cs = (fs', e) \<Longrightarrow> lookup fs q = Some n \<Longrightarrow> lookup fs' q = Some n"
proof (induction cs arbitrary: fs pre)
  case Nil
  then show ?case by simp
next
  case (Cons c cs)
  show ?case
  proof (cases "lookup fs (pre @ [c])")
    case None
    with Cons.prems(2) have "q \<noteq> pre @ [c]" by auto
    with Cons.prems(2) have "lookup ((pre @ [c], Dir) # fs) q = Some n"
      by (auto simp: lookup_def)
    moreover from None Cons.prems(1)
    have "mkdir_from ((pre @ [c], Dir) # fs) (pre @ [c]) cs = (fs', e)" by simp
    ultimately show ?thesis using Cons.IH by blast
  next
    case (Some x)
    then show ?thesis using Cons by (cases x) auto
  qed
qed

lemma write_file_keeps:
  assumes "write_file fs p c = (fs', None)" and "lookup fs q = Some n" and "q \<noteq> p"
  shows "lookup fs' q = Some n"
proof -
  obtain fs1 where m: "mkdir_from fs [] (parent p) = (fs1, None)"
    and w: "fs' = (p, File (written c)) # fs1"
    using assms(1)
    by (auto simp: write_file_def mkdir_parents_def split: prod.splits option.splits node.splits)
  from m assms(2) have "lookup fs1 q = Some n" by (rule mkdir_from_keeps)
  with assms(3) show ?thesis unfolding w by (auto simp: lookup_def)
qed

lemma write_file_stores:
  assumes "write_file fs p c = (fs', None)"
  shows "lookup fs' p = Some (File (written c))"
proof -
  obtain fs1 where w: "fs' = (p, File (written c)) # fs1" and l: "lookup fs1 p \<noteq> Some Dir"
    using assms
    by (auto simp: write_file_def split: prod.splits option.splits node.splits)
  from l have "p \<noteq> []" by (auto simp: lookup_def)
  then show ?thesis unfolding w by (simp add: lookup_def)
qed

lemma write_all_keeps:
  "write_all fs ws = (fs', None) \<Longrightarrow> lookup fs q = Some n \<Longrightarrow> q \<notin> fst ` set ws
     \<Longrightarrow> lookup fs' q = Some n"
proof (induction ws arbitrary: fs)
  case Nil
  then show ?case by simp
next
  case (Cons w ws)
  obtain p c where w: "w = (p, c)" by (cases w)
  from Cons.prems(1) obtain fs1 where 1: "write_file fs p c = (fs1, None)"
    and 2: "write_all fs1 ws = (fs', None)"
    unfolding w by (auto split: prod.splits option.splits)
  from Cons.prems(3) have "q \<noteq> p" and r: "q \<notin> fst ` set ws" unfolding w by auto
  with 1 Cons.prems(2) have "lookup fs1 q = Some n" using write_file_keeps by blast
  with 2 r show ?case using Cons.IH by blast
qed

lemma write_all_stores:
  "write_all fs ws = (fs', None) \<Longrightarrow> distinct (map fst ws) \<Longrightarrow> (p, c) \<in> set ws
     \<Longrightarrow> lookup fs' p = Some (File (written c))"
proof (induction ws arbitrary: fs)
  case Nil
  then show ?case by simp
next
  case (Cons w ws)
  obtain p0 c0 where w: "w = (p0, c0)" by (cases w)
  from Cons.prems(1) obtain fs1 where 1: "write_file fs p0 c0 = (fs1, None)"
    and 2: "write_all fs1 ws = (fs', None)"
    unfolding w by (auto split: prod.splits option.splits)
  from Cons.prems(2) have d: "distinct (map fst ws)" and n: "p0 \<notin> fst ` set ws"
    unfolding w by auto
  show ?case
  proof (cases "(p, c) = (p0, c0)")
    case True
    from 1 have "lookup fs1 p0 = Some (File (written c0))" by (rule write_file_stores)
    with 2 n have "lookup fs' p0 = Some (File (written c0))" using write_all_keeps by blast
    with True show ?thesis by simp
  next
    case False
    with Cons.prems(3) have "(p, c) \<in> set ws" unfolding w by auto
    with 2 d show ?thesis using Cons.IH by blast
  qed
qed

lemma mixins_name_differs: "x @ lit ''.mixins.json'' \<noteq> lit ''fabric.mod.json''"
proof
  assume "x @ lit ''.mixins.json'' = lit ''fabric.mod.json''"
  then have "rev (x @ lit ''.mixins.json'') = rev (lit ''fabric.mod.json'')" by (rule arg_cong)
  then show False by (simp add: lit_def cp_def)
qed

lemma file_writes_distinct:
  assumes "mod_id meta \<noteq> []" and "cp CHR ''/'' \<notin> set (mod_id meta)" and "mod_id meta \<noteq> lit ''.''"
  shows "distinct (map fst (file_writes U root meta))"
proof -
  have n: "lit ''fabric.mod.json'' \<noteq> mod_id meta @ lit ''.mixins.json''"
    using mixins_name_differs [of "mod_id meta"] by auto
  have "inj cp" by (simp add: inj_def cp_def)
  then have l: "lit a = lit b \<longleftrightarrow> a = b" for a b
    by (simp add: lit_def inj_map_eq_map)
  show ?thesis
    unfolding file_writes_paths [OF assms] Let_def
    by (simp add: res_dir_def n l)
qed

section \<open>Two runs on the default record\<close>

lemma list15:
  assumes "length xs = 15"
  shows "cells15 xs = xs"
proof -
  have "[0..<15] = [0, 1, 2, 3, 4, 5, 6, 7, 8, 9, 10, 11, 12, 13, 14::nat]"
    by (simp add: upt_rec)
  then have "map ((!) xs) [0..<length xs] = cells15 xs"
    unfolding assms cells15_def by simp
  then show ?thesis by (simp only: map_nth)
qed

lemma sample_ids:
  "mod_id (normalized ascii_db default_meta) = lit ''cbclient''"
  "base_package ascii_db (normalized ascii_db default_meta) = lit ''com.example.cbclient''"
proof -
  have a: "slugify_modid ascii_db (lit ''cbclient'') = lit ''cbclient''" by code_simp
  have b: "safe_pkg ascii_db (lit ''com.example'') = lit ''com.example''" by code_simp
  have c: "safe_pkg ascii_db (lit ''com.example'' @ lit ''.'' @ lit ''cbclient'')
             = lit ''com.example.cbclient''"
    by code_simp
  show "mod_id (normalized ascii_db default_meta) = lit ''cbclient''"
    by (simp add: normalized_def default_meta_def a)
  show "base_package ascii_db (normalized ascii_db default_meta) = lit ''com.example.cbclient''"
    by (simp add: base_package_def normalized_def default_meta_def a b c)
qed

lemma sample_java:
  "path_parts (replace1 (cp CHR ''.'') (cp CHR ''/'') (lit ''com.example.cbclient''))
     = [lit ''com'', lit ''example'', lit ''cbclient'']"
  by (simp add: path_parts_def replace1_def lit_def cp_def)

lemma sample_paths:
  "map fst (file_writes ascii_db root (normalized ascii_db default_meta)) = sample_rel root"
proof -
  have c: "mod_id (normalized ascii_db default_meta) \<noteq> []"
    "cp CHR ''/'' \<notin> set (mod_id (normalized ascii_db default_meta))"
    "mod_id (normalized ascii_db default_meta) \<noteq> lit ''.''"
    by (simp_all add: sample_ids(1)) (simp_all add: lit_def cp_def)
  have x: "lit ''cbclient'' @ lit ''.mixins.json'' = lit ''cbclient.mixins.json''"
    by (simp add: lit_def)
  show ?thesis
    unfolding file_writes_paths [OF c] Let_def sample_ids sample_java x res_dir_def sample_rel_def
    by simp
qed

lemma sample_writes:
  "file_writes ascii_db root (normalized ascii_db default_meta)
     = zip (sample_rel root)
         (cells15 (map snd (file_writes ascii_db root (normalized ascii_db default_meta))))"
proof -
  let ?ws = "file_writes ascii_db root (normalized ascii_db default_meta)"
  have "length (map snd ?ws) = 15" by (simp add: file_writes_length)
  then have "cells15 (map snd ?ws) = map snd ?ws" by (rule list15)
  then show ?thesis
    using zip_map_fst_snd [of ?ws] by (simp only: sample_paths)
qed

lemma sample_tree_empty:
  "snd (write_all [] (zip (sample_rel [lit ''work'', lit ''CBClient_client'']) (cells15 c))) = None"
  by (simp add: sample_rel_def cells15_def write_file_def mkdir_parents_def parent_def lookup_def
        lit_def cp_def)

lemma sample_tree_used:
  "snd (write_all sample_fs
          (zip (sample_rel [lit ''work'', lit ''CBClient_client_20261103_090507'']) (cells15 c)))
     = None"
  by (simp add: sample_rel_def cells15_def sample_fs_def write_file_def mkdir_parents_def
        parent_def lookup_def lit_def cp_def)

lemma sample_meta:
  "project_name (normalized ascii_db default_meta) = lit ''CBClient_client''"
  "out_dir (normalized ascii_db default_meta) = [lit ''work'']"
  by (simp_all add: normalized_def default_meta_def or_else_def strip_def strip_of_def
        lstrip_of_def rstrip_of_def lit_def cp_def isspace_def folder_char_def is_word_def
        is_ascii_def is_az_def is_AZ_def is_09_def)

lemma sample_resolve:
  "resolve_root sample_now [] (normalized ascii_db default_meta)
     = Inr [lit ''work'', lit ''CBClient_client'']"
  "resolve_root sample_now sample_fs (normalized ascii_db default_meta)
     = Inr [lit ''work'', lit ''CBClient_client_20261103_090507'']"
  by (simp_all add: resolve_root_def Let_def sample_meta path_div_def path_parts_def lookup_def
        has_entries_def sample_fs_def stamp_def sample_now_def pad2_def pad4_def digit_def
        lit_def cp_def)

lemma sample_run_empty:
  "snd (generate ascii_db sample_now [] default_meta) = Inr [lit ''work'', lit ''CBClient_client'']"
proof -
  have "snd (write_all [] (file_writes ascii_db [lit ''work'', lit ''CBClient_client'']
                             (normalized ascii_db default_meta))) = None"
    by (subst sample_writes) (rule sample_tree_empty)
  then obtain out where "write_all [] (file_writes ascii_db [lit ''work'', lit ''CBClient_client'']
                                         (normalized ascii_db default_meta)) = (out, None)"
    by (metis prod.collapse)
  then show ?thesis by (simp add: generate_def Let_def sample_resolve)
qed

lemma sample_run_used:
  "snd (generate ascii_db sample_now sample_fs default_meta)
     = Inr [lit ''work'', lit ''CBClient_client_20261103_090507'']"
proof -
  have "snd (write_all sample_fs
               (file_writes ascii_db [lit ''work'', lit ''CBClient_client_20261103_090507'']
                  (normalized ascii_db default_meta))) = None"
    by (subst sample_writes) (rule sample_tree_used)
  then obtain out where
    "write_all sample_fs
       (file_writes ascii_db [lit ''work'', lit ''CBClient_client_20261103_090507'']
          (normalized ascii_db default_meta)) = (out, None)"
    by (metis prod.collapse)
  then show ?thesis by (simp add: generate_def Let_def sample_resolve)
qed

text \<open>
  C8: take two successful runs of \<open>generate\<close> on the same record, at any two moments and
  on any two file systems, with targets \<open>r1\<close> and \<open>r2\<close>. Both make the same sequence of
  \<^verbatim>\<open>write_file\<close> calls up to the target prefix: the paths below the target and the
  contents are those of \<open>file_writes\<close> at the empty target, which depends on the
  normalized record (and the locked versions) only. Afterwards every generated file holds,
  in both trees, the same content.
\<close>

theorem rendering_deterministic:
  assumes "generate U now1 fs1 m = (out1, Inr r1)" and "generate U now2 fs2 m = (out2, Inr r2)"
  shows "(let rel = file_writes U [] (normalized U m) in
            file_writes U r1 (normalized U m) = map (\<lambda>(q, c). (r1 @ q, c)) rel
          \<and> file_writes U r2 (normalized U m) = map (\<lambda>(q, c). (r2 @ q, c)) rel
          \<and> (\<forall>(q, c) \<in> set rel.
                lookup out1 (r1 @ q) = Some (File (written c))
              \<and> lookup out2 (r2 @ q) = Some (File (written c))))"
proof -
  let ?cm = "normalized U m"
  let ?rel = "file_writes U [] ?cm"
  have id: "mod_id ?cm = slugify_modid U (mod_id m)" by (simp add: normalized_def)
  have c: "mod_id ?cm \<noteq> []" "cp CHR ''/'' \<notin> set (mod_id ?cm)" "mod_id ?cm \<noteq> lit ''.''"
    unfolding id by (rule slug_component)+
  have u: "file_writes U r ?cm = map (\<lambda>(q, c). (r @ q, c)) ?rel" for r
    using c by (rule file_writes_under_root)
  have d: "distinct (map fst (file_writes U r ?cm))" for r
    using c by (rule file_writes_distinct)
  have s: "lookup out (r @ q) = Some (File (written x))"
    if g: "generate U now fs m = (out, Inr r)" and e: "(q, x) \<in> set ?rel" for now fs out r q x
  proof -
    from g have w: "write_all fs (file_writes U r ?cm) = (out, None)" by (rule generate_target(2))
    from e have "(r @ q, x) \<in> set (file_writes U r ?cm)" unfolding u [of r] by force
    with w d [of r] show ?thesis by (rule write_all_stores)
  qed
  have "\<forall>(q, x) \<in> set ?rel.
          lookup out1 (r1 @ q) = Some (File (written x))
        \<and> lookup out2 (r2 @ q) = Some (File (written x))"
    using s [OF assms(1)] s [OF assms(2)] by blast
  with u [of r1] u [of r2] show ?thesis unfolding Let_def by blast
qed

theorem rendering_deterministic_witness:
  "snd (generate ascii_db sample_now [] default_meta) = Inr [lit ''work'', lit ''CBClient_client'']
   \<and> snd (generate ascii_db sample_now sample_fs default_meta)
       = Inr [lit ''work'', lit ''CBClient_client_20261103_090507'']
   \<and> lookup (fst (generate ascii_db sample_now [] default_meta))
        [lit ''work'', lit ''CBClient_client'', lit ''build.gradle'']
       = Some (File (written (Text (t_render tpl_build_gradle []))))
   \<and> lookup (fst (generate ascii_db sample_now sample_fs default_meta))
        [lit ''work'', lit ''CBClient_client_20261103_090507'', lit ''build.gradle'']
       = Some (File (written (Text (t_render tpl_build_gradle []))))"
proof -
  have 1: "generate ascii_db sample_now [] default_meta
             = (fst (generate ascii_db sample_now [] default_meta),
                Inr [lit ''work'', lit ''CBClient_client''])"
    using sample_run_empty by (simp add: prod_eq_iff)
  have 2: "generate ascii_db sample_now sample_fs default_meta
             = (fst (generate ascii_db sample_now sample_fs default_meta),
                Inr [lit ''work'', lit ''CBClient_client_20261103_090507''])"
    using sample_run_used by (simp add: prod_eq_iff)
  have e: "([lit ''build.gradle''], Text (t_render tpl_build_gradle []))
             \<in> set (file_writes ascii_db [] (normalized ascii_db default_meta))"
    by (simp add: file_writes_def Let_def path_div_relative relative_lits path_parts_names)
  from rendering_deterministic [OF 1 2] e
  have "lookup (fst (generate ascii_db sample_now [] default_meta))
          ([lit ''work'', lit ''CBClient_client''] @ [lit ''build.gradle''])
          = Some (File (written (Text (t_render tpl_build_gradle []))))
      \<and> lookup (fst (generate ascii_db sample_now sample_fs default_meta))
          ([lit ''work'', lit ''CBClient_client_20261103_090507''] @ [lit ''build.gradle''])
          = Some (File (written (Text (t_render tpl_build_gradle []))))"
    unfolding Let_def by blast
  with sample_run_empty sample_run_used show ?thesis by simp
qed

section \<open>The time stamp and the target\<close>

lemma digit_inj: "digit a = digit b \<longleftrightarrow> a mod 10 = b mod 10"
  by (simp add: digit_def)

lemma digits_step: "(x::nat) div 10 = y div 10 \<Longrightarrow> x mod 10 = y mod 10 \<Longrightarrow> x = y"
  by (metis div_mult_mod_eq)

lemma pad2_inj:
  assumes "a < 100" and "b < 100" and "pad2 a = pad2 b"
  shows "a = b"
proof -
  from assms(3) have d: "(a div 10) mod 10 = (b div 10) mod 10" and u: "a mod 10 = b mod 10"
    by (simp_all add: pad2_def digit_inj)
  from assms(1,2) have "a div 10 < 10" and "b div 10 < 10" by simp_all
  with d have "a div 10 = b div 10" by simp
  then show ?thesis using u by (rule digits_step)
qed

lemma pad4_inj:
  assumes "a < 10000" and "b < 10000" and "pad4 a = pad4 b"
  shows "a = b"
proof -
  from assms(3) have d3: "(a div 1000) mod 10 = (b div 1000) mod 10"
    and d2: "(a div 100) mod 10 = (b div 100) mod 10"
    and d1: "(a div 10) mod 10 = (b div 10) mod 10" and d0: "a mod 10 = b mod 10"
    by (simp_all add: pad4_def digit_inj)
  from assms(1,2) have "a div 1000 < 10" and "b div 1000 < 10" by simp_all
  with d3 have e3: "a div 1000 = b div 1000" by simp
  have "a div 100 div 10 = a div 1000" and "b div 100 div 10 = b div 1000"
    by (simp_all add: div_mult2_eq [symmetric])
  with e3 have "a div 100 div 10 = b div 100 div 10" by simp
  then have e2: "a div 100 = b div 100" using d2 by (rule digits_step)
  have "a div 10 div 10 = a div 100" and "b div 10 div 10 = b div 100"
    by (simp_all add: div_mult2_eq [symmetric])
  with e2 have "a div 10 div 10 = b div 10 div 10" by simp
  then have "a div 10 = b div 10" using d1 by (rule digits_step)
  then show ?thesis using d0 by (rule digits_step)
qed

lemma stamp_inj:
  assumes "valid_moment s" and "valid_moment t" and "stamp s = stamp t"
  shows "s = t"
proof -
  from assms(3) have "pad4 (year s) = pad4 (year t)" "pad2 (month s) = pad2 (month t)"
    "pad2 (day s) = pad2 (day t)" "pad2 (hour s) = pad2 (hour t)"
    "pad2 (minute s) = pad2 (minute t)" "pad2 (second s) = pad2 (second t)"
    by (simp_all add: stamp_def pad2_def pad4_def lit_def)
  moreover from assms(1,2) have "year s < 10000" "year t < 10000" "month s < 100" "month t < 100"
    "day s < 100" "day t < 100" "hour s < 100" "hour t < 100" "minute s < 100" "minute t < 100"
    "second s < 100" "second t < 100"
    by (simp_all add: valid_moment_def)
  ultimately have "year s = year t" "month s = month t" "day s = day t" "hour s = hour t"
    "minute s = minute t" "second s = second t"
    using pad2_inj pad4_inj by blast+
  then show ?thesis by simp
qed

lemma stamp_shape:
  "length (stamp now) = 15" "stamp now ! 8 = cp CHR ''_''"
  "list_all is_09 (take 8 (stamp now))" "list_all is_09 (drop 9 (stamp now))"
proof -
  have d: "is_09 (digit n)" for n by (simp add: is_09_def digit_def)
  show "length (stamp now) = 15" by (simp add: stamp_def pad2_def pad4_def lit_def)
  show "stamp now ! 8 = cp CHR ''_''" by (simp add: stamp_def pad2_def pad4_def lit_def)
  show "list_all is_09 (take 8 (stamp now))" by (simp add: stamp_def pad2_def pad4_def lit_def d)
  show "list_all is_09 (drop 9 (stamp now))" by (simp add: stamp_def pad2_def pad4_def lit_def d)
qed

lemma alt_path:
  assumes ne: "pn \<noteq> []" and ns: "cp CHR ''/'' \<notin> set pn"
  shows "path_div out (pn @ lit ''_'' @ stamp now) = out @ [pn @ lit ''_'' @ stamp now]"
proof -
  let ?alt = "pn @ lit ''_'' @ stamp now"
  have a: "cp CHR ''/'' \<notin> set ?alt" using ns stamp_no_slash by (simp add: lit_def cp_def)
  have len: "length ?alt > length pn" by (simp add: lit_def)
  from ne len have g1: "length ?alt > 1" by (cases pn) auto
  have nd: "?alt \<noteq> lit ''.''"
  proof
    assume "?alt = lit ''.''"
    then have "length ?alt = length (lit ''.'')" by (rule arg_cong)
    with g1 show False by (simp add: lit_def)
  qed
  from ne have ne': "?alt \<noteq> []" by simp
  show ?thesis
    using a nd ne' by (simp add: path_div_relative relative_absent path_parts_single del: append_assoc)
qed

lemma alt_per_moment:
  assumes "pn \<noteq> []" and "cp CHR ''/'' \<notin> set pn"
    and "valid_moment s" and "valid_moment t" and "s \<noteq> t"
  shows "path_div out (pn @ lit ''_'' @ stamp s) \<noteq> path_div out (pn @ lit ''_'' @ stamp t)"
proof
  assume "path_div out (pn @ lit ''_'' @ stamp s) = path_div out (pn @ lit ''_'' @ stamp t)"
  then have "stamp s = stamp t" unfolding alt_path [OF assms(1,2)] by simp
  with assms(3,4) have "s = t" by (rule stamp_inj)
  with assms(5) show False by simp
qed

lemma generate_files:
  assumes g: "generate U now fs m = (out, Inr r)"
    and e: "(q, x) \<in> set (file_writes U [] (normalized U m))"
  shows "lookup out (r @ q) = Some (File (written x))"
proof -
  let ?cm = "normalized U m"
  have id: "mod_id ?cm = slugify_modid U (mod_id m)" by (simp add: normalized_def)
  have c: "mod_id ?cm \<noteq> []" "cp CHR ''/'' \<notin> set (mod_id ?cm)" "mod_id ?cm \<noteq> lit ''.''"
    unfolding id by (rule slug_component)+
  have u: "file_writes U r ?cm = map (\<lambda>(q, c). (r @ q, c)) (file_writes U [] ?cm)"
    using c by (rule file_writes_under_root)
  have d: "distinct (map fst (file_writes U r ?cm))" using c by (rule file_writes_distinct)
  from g have w: "write_all fs (file_writes U r ?cm) = (out, None)" by (rule generate_target(2))
  from e have "(r @ q, x) \<in> set (file_writes U r ?cm)" unfolding u by force
  with w d show ?thesis by (rule write_all_stores)
qed

text \<open>
  C6: with \<open>root\<close> the candidate \<^verbatim>\<open>out_dir / project_name\<close> of the normalized record
  and \<open>alt\<close> the path with \<^verbatim>\<open>_\<close> and the time stamp appended to the folder name:
  when the candidate does not exist or is a directory without entries the target is
  \<open>root\<close>; when it is a directory with entries the target is \<open>alt\<close>, which never equals
  \<open>root\<close>. The stamp has the shape \<^verbatim>\<open>%Y%m%d_%H%M%S\<close>, fifteen characters that are digits
  but for the underscore in the ninth place, and it resolves seconds: two different
  moments have different stamps and different paths \<open>alt\<close>. A successful \<open>generate\<close>
  returns the target, and afterwards every generated file is in the tree below it.
  (A regular file at the candidate makes \<^verbatim>\<open>iterdir\<close> raise.)
\<close>

theorem target_resolution:
  "(let cm = normalized U m;
        root = path_div (out_dir cm) (project_name cm);
        alt = (\<lambda>t. path_div (out_dir cm) (project_name cm @ lit ''_'' @ stamp t))
    in (lookup fs root = None \<or> (lookup fs root = Some Dir \<and> \<not> has_entries fs root)
          \<longrightarrow> resolve_root now fs cm = Inr root)
     \<and> (lookup fs root = Some Dir \<and> has_entries fs root \<longrightarrow> resolve_root now fs cm = Inr (alt now))
     \<and> alt now \<noteq> root
     \<and> length (stamp now) = 15 \<and> list_all is_09 (take 8 (stamp now))
     \<and> stamp now ! 8 = cp CHR ''_'' \<and> list_all is_09 (drop 9 (stamp now))
     \<and> (\<forall>t. valid_moment now \<and> valid_moment t \<and> t \<noteq> now
              \<longrightarrow> stamp t \<noteq> stamp now \<and> alt t \<noteq> alt now)
     \<and> (\<forall>out r. generate U now fs m = (out, Inr r) \<longrightarrow>
            resolve_root now fs cm = Inr r
          \<and> (\<forall>(q, c) \<in> set (file_writes U [] cm). lookup out (r @ q) = Some (File (written c)))))"
proof -
  let ?cm = "normalized U m"
  let ?root = "path_div (out_dir ?cm) (project_name ?cm)"
  let ?alt = "\<lambda>t. path_div (out_dir ?cm) (project_name ?cm @ lit ''_'' @ stamp t)"
  note pn = project_name_normalized [of U m]
  have a: "lookup fs ?root = None \<or> (lookup fs ?root = Some Dir \<and> \<not> has_entries fs ?root)
           \<longrightarrow> resolve_root now fs ?cm = Inr ?root"
    by (auto simp: resolve_root_def Let_def)
  have b: "lookup fs ?root = Some Dir \<and> has_entries fs ?root
           \<longrightarrow> resolve_root now fs ?cm = Inr (?alt now)"
    by (auto simp: resolve_root_def Let_def)
  have c: "?alt now \<noteq> ?root" using pn by (rule alt_differs)
  have d: "length (stamp now) = 15 \<and> list_all is_09 (take 8 (stamp now))
           \<and> stamp now ! 8 = cp CHR ''_'' \<and> list_all is_09 (drop 9 (stamp now))"
    by (simp add: stamp_shape)
  have e: "\<forall>t. valid_moment now \<and> valid_moment t \<and> t \<noteq> now
             \<longrightarrow> stamp t \<noteq> stamp now \<and> ?alt t \<noteq> ?alt now"
    using stamp_inj alt_per_moment [OF pn] by blast
  have f: "\<forall>out r. generate U now fs m = (out, Inr r) \<longrightarrow>
            resolve_root now fs ?cm = Inr r
          \<and> (\<forall>(q, c) \<in> set (file_writes U [] ?cm). lookup out (r @ q) = Some (File (written c)))"
  proof (intro allI impI conjI)
    fix out r assume g: "generate U now fs m = (out, Inr r)"
    then show "resolve_root now fs ?cm = Inr r" by (rule generate_target(1))
    show "\<forall>(q, c) \<in> set (file_writes U [] ?cm). lookup out (r @ q) = Some (File (written c))"
      using generate_files [OF g] by auto
  qed
  show ?thesis unfolding Let_def by (intro conjI a b c e f) (simp_all add: d)
qed

theorem target_resolution_witness:
  "resolve_root sample_now [] (normalized ascii_db default_meta)
     = Inr [lit ''work'', lit ''CBClient_client'']
   \<and> resolve_root sample_now sample_fs (normalized ascii_db default_meta)
     = Inr [lit ''work'', lit ''CBClient_client_20261103_090507'']
   \<and> valid_moment sample_now \<and> valid_moment (sample_now\<lparr>second := 8\<rparr>)
   \<and> stamp sample_now = lit ''20261103_090507''
   \<and> stamp (sample_now\<lparr>second := 8\<rparr>) = lit ''20261103_090508''
   \<and> path_div [lit ''work''] (lit ''CBClient_client'' @ lit ''_'' @ stamp (sample_now\<lparr>second := 8\<rparr>))
     \<noteq> path_div [lit ''work''] (lit ''CBClient_client'' @ lit ''_'' @ stamp sample_now)
   \<and> lookup (fst (generate ascii_db sample_now sample_fs default_meta))
        ([lit ''work'', lit ''CBClient_client_20261103_090507''] @ [lit ''build.gradle''])
     = Some (File (written (Text (t_render tpl_build_gradle []))))"
proof -
  let ?cm = "normalized ascii_db default_meta"
  let ?later = "sample_now\<lparr>second := 8\<rparr>"
  have st: "stamp sample_now = lit ''20261103_090507''"
    by (simp add: stamp_def sample_now_def pad2_def pad4_def digit_def lit_def cp_def)
  have st': "stamp ?later = lit ''20261103_090508''"
    by (simp add: stamp_def sample_now_def pad2_def pad4_def digit_def lit_def cp_def)
  have root: "path_div [lit ''work''] (lit ''CBClient_client'') = [lit ''work'', lit ''CBClient_client'']"
    by (simp add: path_div_def path_parts_def lit_def cp_def)
  have alt: "path_div [lit ''work''] (lit ''CBClient_client'' @ lit ''_'' @ lit ''20261103_090507'')
               = [lit ''work'', lit ''CBClient_client_20261103_090507'']"
    by (simp add: path_div_def path_parts_def lit_def cp_def)
  have e: "lookup [] [lit ''work'', lit ''CBClient_client''] = None"
    by (simp add: lookup_def)
  have f: "lookup sample_fs [lit ''work'', lit ''CBClient_client''] = Some Dir"
    by (simp add: lookup_def sample_fs_def lit_def cp_def)
  have g: "has_entries sample_fs [lit ''work'', lit ''CBClient_client'']"
    by (simp add: has_entries_def sample_fs_def)
  have v: "valid_moment sample_now" "valid_moment ?later" "?later \<noteq> sample_now"
    by (simp_all add: valid_moment_def sample_now_def)
  have run: "generate ascii_db sample_now sample_fs default_meta
               = (fst (generate ascii_db sample_now sample_fs default_meta),
                  Inr [lit ''work'', lit ''CBClient_client_20261103_090507''])"
    using sample_run_used by (simp add: prod_eq_iff)
  have b: "([lit ''build.gradle''], Text (t_render tpl_build_gradle []))
             \<in> set (file_writes ascii_db [] ?cm)"
    by (simp add: file_writes_def Let_def path_div_relative relative_lits path_parts_names)
  note E = target_resolution [where U = ascii_db and m = default_meta and fs = "[]" and now = sample_now,
      unfolded Let_def sample_meta root]
  note T = target_resolution [where U = ascii_db and m = default_meta and fs = sample_fs
      and now = sample_now, unfolded Let_def sample_meta root]
  have 1: "resolve_root sample_now [] ?cm = Inr [lit ''work'', lit ''CBClient_client'']"
    using E [THEN conjunct1] e by blast
  have 2: "resolve_root sample_now sample_fs ?cm
             = Inr [lit ''work'', lit ''CBClient_client_20261103_090507'']"
    using T [THEN conjunct2, THEN conjunct1] f g unfolding st alt by blast
  have 3: "path_div [lit ''work''] (lit ''CBClient_client'' @ lit ''_'' @ stamp ?later)
             \<noteq> path_div [lit ''work''] (lit ''CBClient_client'' @ lit ''_'' @ stamp sample_now)"
    using T [THEN conjunct2, THEN conjunct2, THEN conjunct2, THEN conjunct2, THEN conjunct2,
        THEN conjunct2, THEN conjunct2, THEN conjunct1, THEN spec, of ?later] v
    by blast
  have 4: "lookup (fst (generate ascii_db sample_now sample_fs default_meta))
             ([lit ''work'', lit ''CBClient_client_20261103_090507''] @ [lit ''build.gradle''])
             = Some (File (written (Text (t_render tpl_build_gradle []))))"
    using T [THEN conjunct2, THEN conjunct2, THEN conjunct2, THEN conjunct2, THEN conjunct2,
        THEN conjunct2, THEN conjunct2, THEN conjunct2, THEN spec, THEN spec, THEN mp, OF run] b
    by blast
  from 1 2 v(1) v(2) st st' 3 4 show ?thesis by blast
qed

section \<open>The manifest as text\<close>


lemma json_escape_plain: "plain c \<Longrightarrow> json_escape c = [c]"
  by (simp add: plain_def json_escape_def)

lemma json_str_plain: "list_all plain s \<Longrightarrow> json_str s = [34] @ s @ [34]"
proof -
  assume "list_all plain s"
  then have "concat (map json_escape s) = s"
    by (induction s) (simp_all add: json_escape_plain)
  then show ?thesis by (simp add: json_str_def)
qed

lemma slug_char_plain: "slug_char c \<Longrightarrow> plain c"
  by (auto simp: slug_char_def plain_def is_az_def is_09_def is_sep_def)

lemma slug_plain: "list_all plain (slugify_modid U s)"
proof -
  have "slug_match (take 64 (slug_s3 U s))" by (rule slug_take_match)
  then have "\<forall>c \<in> set (slugify_modid U s). slug_char c"
    by (simp add: slug_match_iff slugify_modid_s3)
  then show ?thesis by (auto simp: list_all_iff slug_char_plain)
qed

lemma nl_indent_levels:
  "nl_indent (Suc (Suc 0)) = nl_indent 2" "nl_indent (Suc (Suc (Suc 0))) = nl_indent 3"
  by (simp_all add: numeral_2_eq_2 numeral_3_eq_3)

lemma manifest_text:
  assumes "list_all plain (mod_id meta)"
  shows \<open>json_dumps (manifest U meta) =
    lit ''{'' @ nl_indent 1
    @ join (lit '','' @ nl_indent 1)
        [lit ''"schemaVersion": 1'',
         lit ''"id": "'' @ mod_id meta @ lit ''"'',
         lit ''"version": "${version}"'',
         lit ''"name": '' @ json_str (client_name meta),
         lit ''"description": '' @ json_str (description meta),
         lit ''"authors": '' @ json_dumps_at 1 (JList (map JStr (authors meta))),
         lit ''"license": '' @ json_str (license_name meta),
         lit ''"icon": "'' @ (lit ''assets/'' @ mod_id meta @ lit ''/icon.png'') @ lit ''"'',
         lit ''"environment": "client"'',
         lit ''"entrypoints": {'' @ nl_indent 2 @ lit ''"client": ['' @ nl_indent 3
           @ json_str (base_package U meta @ lit ''.CBClient'')
           @ nl_indent 2 @ lit '']'' @ nl_indent 1 @ lit ''}'',
         lit ''"mixins": ['' @ nl_indent 2
           @ lit ''"'' @ (mod_id meta @ lit ''.mixins.json'') @ lit ''"''
           @ nl_indent 1 @ lit '']'',
         lit ''"depends": {'' @ nl_indent 2
           @ join (lit '','' @ nl_indent 2)
               [lit ''"fabricloader": ">=0.18.0"'', lit ''"minecraft": "=1.21.4"'',
                lit ''"java": ">=21"'', lit ''"fabric-api": "*"'']
           @ nl_indent 1 @ lit ''}'']
    @ nl_indent 0 @ lit ''}''\<close>
proof -
  have k: "json_str (lit s) = [34] @ lit s @ [34]" if "list_all plain (lit s)" for s
    using that by (rule json_str_plain)
  have keys:
    \<open>json_str (lit ''schemaVersion'') = [34] @ lit ''schemaVersion'' @ [34]\<close>
    \<open>json_str (lit ''id'') = [34] @ lit ''id'' @ [34]\<close>
    \<open>json_str (lit ''version'') = [34] @ lit ''version'' @ [34]\<close>
    \<open>json_str (lit ''${version}'') = [34] @ lit ''${version}'' @ [34]\<close>
    \<open>json_str (lit ''name'') = [34] @ lit ''name'' @ [34]\<close>
    \<open>json_str (lit ''description'') = [34] @ lit ''description'' @ [34]\<close>
    \<open>json_str (lit ''authors'') = [34] @ lit ''authors'' @ [34]\<close>
    \<open>json_str (lit ''license'') = [34] @ lit ''license'' @ [34]\<close>
    \<open>json_str (lit ''icon'') = [34] @ lit ''icon'' @ [34]\<close>
    \<open>json_str (lit ''environment'') = [34] @ lit ''environment'' @ [34]\<close>
    \<open>json_str (lit ''client'') = [34] @ lit ''client'' @ [34]\<close>
    \<open>json_str (lit ''entrypoints'') = [34] @ lit ''entrypoints'' @ [34]\<close>
    \<open>json_str (lit ''mixins'') = [34] @ lit ''mixins'' @ [34]\<close>
    \<open>json_str (lit ''depends'') = [34] @ lit ''depends'' @ [34]\<close>
    \<open>json_str (lit ''fabricloader'') = [34] @ lit ''fabricloader'' @ [34]\<close>
    \<open>json_str (lit ''>=0.18.0'') = [34] @ lit ''>=0.18.0'' @ [34]\<close>
    \<open>json_str (lit ''minecraft'') = [34] @ lit ''minecraft'' @ [34]\<close>
    \<open>json_str (lit ''java'') = [34] @ lit ''java'' @ [34]\<close>
    \<open>json_str (lit ''fabric-api'') = [34] @ lit ''fabric-api'' @ [34]\<close>
    \<open>json_str (lit ''*'') = [34] @ lit ''*'' @ [34]\<close>
    by (rule k, simp add: lit_def cp_def plain_def)+
  have v: \<open>json_str (lit ''='' @ env_get LOCKED ''minecraft_version'') = [34] @ lit ''=1.21.4'' @ [34]\<close>
    \<open>json_str (lit ''>='' @ env_get LOCKED ''java_version'') = [34] @ lit ''>=21'' @ [34]\<close>
    by (simp_all add: env_get_def LOCKED_def json_str_plain lit_def cp_def plain_def)
  have i: "json_str (mod_id meta) = [34] @ mod_id meta @ [34]"
    using assms by (rule json_str_plain)
  have "list_all plain (lit ''assets/'' @ mod_id meta @ lit ''/icon.png'')"
    using assms by (simp add: lit_def cp_def plain_def)
  then have ic: "json_str (lit ''assets/'' @ mod_id meta @ lit ''/icon.png'')
                   = [34] @ (lit ''assets/'' @ mod_id meta @ lit ''/icon.png'') @ [34]"
    by (rule json_str_plain)
  have "list_all plain (mod_id meta @ lit ''.mixins.json'')"
    using assms by (simp add: lit_def cp_def plain_def)
  then have mx: "json_str (mod_id meta @ lit ''.mixins.json'')
                   = [34] @ (mod_id meta @ lit ''.mixins.json'') @ [34]"
    by (rule json_str_plain)
  have d: "dec_int 1 = lit ''1''"
    by (simp add: dec_int_def digit_def lit_def cp_def)
  show ?thesis
    unfolding json_dumps_def manifest_def
    by (simp add: keys v i ic mx d nl_indent_levels del: join.simps(3))
       (simp add: lit_def cp_def del: join.simps(3))
qed

lemma manifest_text_ends:
  assumes "list_all plain (mod_id meta)"
  shows "strip (json_dumps (manifest U meta)) = json_dumps (manifest U meta)"
proof -
  let ?t = "json_dumps (manifest U meta)"
  have "?t \<noteq> []" and "hd ?t = 123" and "last ?t = 125"
    unfolding manifest_text [OF assms] by (simp_all add: lit_def cp_def)
  then have "?t \<noteq> []" and "\<not> isspace (hd ?t)" and "\<not> isspace (last ?t)"
    by (simp_all add: isspace_def)
  then show ?thesis unfolding strip_def by (rule strip_of_clean)
qed

lemma resource_paths:
  assumes "x \<noteq> []" and "cp CHR ''/'' \<notin> set x" and "x \<noteq> lit ''.''"
  shows "path_div d (lit ''assets/'' @ x @ lit ''/icon.png'')
           = d @ [lit ''assets'', x, lit ''icon.png'']"
    and "path_div d (x @ lit ''.mixins.json'') = d @ [x @ lit ''.mixins.json'']"
proof -
  show "path_div d (lit ''assets/'' @ x @ lit ''/icon.png'')
           = d @ [lit ''assets'', x, lit ''icon.png'']"
    by (simp add: path_div_relative relative_lits path_parts_assets [OF assms])
  have h: "hd x \<noteq> cp CHR ''/''" using assms(1,2) by (cases x) auto
  have r: "relative (x @ lit ''.mixins.json'')" using assms(1) h by (rule relative_front)
  have "cp CHR ''/'' \<notin> set (x @ lit ''.mixins.json'')" using assms(2) by (simp add: lit_def cp_def)
  moreover have "x @ lit ''.mixins.json'' \<noteq> lit ''.''"
    using assms(1) by (cases x) (auto simp: lit_def)
  ultimately have "path_parts (x @ lit ''.mixins.json'') = [x @ lit ''.mixins.json'']"
    using assms(1) by (simp add: path_parts_single)
  with r show "path_div d (x @ lit ''.mixins.json'') = d @ [x @ lit ''.mixins.json'']"
    by (simp add: path_div_relative)
qed

text \<open>
  C10, with the references of the manifest read from the directory of the manifest,
  \<^verbatim>\<open>src/main/resources\<close> below the target, and not from the target. For the
  normalized record and any target \<open>root\<close>: the text written to \<^verbatim>\<open>fabric.mod.json\<close>
  is the one spelled out below, whose \<^verbatim>\<open>icon\<close> entry holds
  \<^verbatim>\<open>assets/<mod_id>/icon.png\<close> and whose \<^verbatim>\<open>mixins\<close> entry lists \<^verbatim>\<open><mod_id>.mixins.json\<close>;
  the icon bytes are written at the icon entry read as a path from the directory of the
  manifest, and the mixins configuration at the mixins entry read so, which is a file
  next to the manifest. After a successful run with target \<open>r\<close> the three files hold
  these contents.
\<close>

theorem manifest_refs_resolve:
  \<open>(let cm = normalized U m;
        ws = file_writes U root cm;
        icon_ref = lit ''assets/'' @ mod_id cm @ lit ''/icon.png'';
        mixins_ref = mod_id cm @ lit ''.mixins.json'';
        manifest_text =
       lit ''{'' @ nl_indent 1
       @ join (lit '','' @ nl_indent 1)
           [lit ''"schemaVersion": 1'',
            lit ''"id": "'' @ mod_id cm @ lit ''"'',
            lit ''"version": "${version}"'',
            lit ''"name": '' @ json_str (client_name cm),
            lit ''"description": '' @ json_str (description cm),
            lit ''"authors": '' @ json_dumps_at 1 (JList (map JStr (authors cm))),
            lit ''"license": '' @ json_str (license_name cm),
            lit ''"icon": "'' @ icon_ref @ lit ''"'',
            lit ''"environment": "client"'',
            lit ''"entrypoints": {'' @ nl_indent 2 @ lit ''"client": ['' @ nl_indent 3
              @ json_str (base_package U cm @ lit ''.CBClient'')
              @ nl_indent 2 @ lit '']'' @ nl_indent 1 @ lit ''}'',
            lit ''"mixins": ['' @ nl_indent 2 @ lit ''"'' @ mixins_ref @ lit ''"''
              @ nl_indent 1 @ lit '']'',
            lit ''"depends": {'' @ nl_indent 2
              @ join (lit '','' @ nl_indent 2)
                  [lit ''"fabricloader": ">=0.18.0"'', lit ''"minecraft": "=1.21.4"'',
                   lit ''"java": ">=21"'', lit ''"fabric-api": "*"'']
              @ nl_indent 1 @ lit ''}'']
       @ nl_indent 0 @ lit ''}''
    in (root @ res_dir @ [lit ''fabric.mod.json''], Text (json_dumps (manifest U cm))) \<in> set ws
     \<and> json_dumps (manifest U cm) = manifest_text
     \<and> (path_div (root @ res_dir) icon_ref, Bytes (b64decode ICON_B64)) \<in> set ws
     \<and> path_div (root @ res_dir) icon_ref = root @ res_dir @ [lit ''assets'', mod_id cm, lit ''icon.png'']
     \<and> (path_div (root @ res_dir) mixins_ref, Text (json_dumps (mixins_config U cm))) \<in> set ws
     \<and> path_div (root @ res_dir) mixins_ref = root @ res_dir @ [mixins_ref]
     \<and> (\<forall>now fs out r. generate U now fs m = (out, Inr r) \<longrightarrow>
            lookup out (r @ res_dir @ [lit ''fabric.mod.json''])
              = Some (File (Text (manifest_text @ [10])))
          \<and> lookup out (path_div (r @ res_dir) icon_ref) = Some (File (Bytes (b64decode ICON_B64)))
          \<and> lookup out (path_div (r @ res_dir) mixins_ref)
              = Some (File (written (Text (json_dumps (mixins_config U cm)))))))\<close>
proof -
  let ?cm = "normalized U m"
  have id: "mod_id ?cm = slugify_modid U (mod_id m)" by (simp add: normalized_def)
  have c: "mod_id ?cm \<noteq> []" "cp CHR ''/'' \<notin> set (mod_id ?cm)" "mod_id ?cm \<noteq> lit ''.''"
    unfolding id by (rule slug_component)+
  have p: "list_all plain (mod_id ?cm)" unfolding id by (rule slug_plain)
  note t = manifest_text [OF p, of U]
  note rp = resource_paths [OF c]
  have mem: "file_writes U d ?cm ! i \<in> set (file_writes U d ?cm)" if "i < 15" for i d
    using that by (simp add: file_writes_length)
  have w5: "(d @ res_dir @ [lit ''fabric.mod.json''], Text (json_dumps (manifest U ?cm)))
              \<in> set (file_writes U d ?cm)" for d
    using mem [of 5 d] unfolding file_writes_nth [OF c] by simp
  have w6: "(d @ res_dir @ [mod_id ?cm @ lit ''.mixins.json''],
             Text (json_dumps (mixins_config U ?cm))) \<in> set (file_writes U d ?cm)" for d
    using mem [of 6 d] unfolding file_writes_nth [OF c] by simp
  have w8: "(d @ res_dir @ [lit ''assets'', mod_id ?cm, lit ''icon.png''], Bytes (b64decode ICON_B64))
              \<in> set (file_writes U d ?cm)" for d
    using mem [of 8 d] unfolding file_writes_nth [OF c] by simp
  have run: "lookup out (r @ res_dir @ [lit ''fabric.mod.json''])
               = Some (File (Text (json_dumps (manifest U ?cm) @ [10])))
           \<and> lookup out (r @ res_dir @ [lit ''assets'', mod_id ?cm, lit ''icon.png''])
               = Some (File (Bytes (b64decode ICON_B64)))
           \<and> lookup out (r @ res_dir @ [mod_id ?cm @ lit ''.mixins.json''])
               = Some (File (written (Text (json_dumps (mixins_config U ?cm)))))"
    if g: "generate U now fs m = (out, Inr r)" for now fs out r
    using generate_files [OF g, of "res_dir @ [lit ''fabric.mod.json'']"]
      generate_files [OF g, of "res_dir @ [lit ''assets'', mod_id ?cm, lit ''icon.png'']"]
      generate_files [OF g, of "res_dir @ [mod_id ?cm @ lit ''.mixins.json'']"]
      w5 [of "[]"] w6 [of "[]"] w8 [of "[]"]
    by (simp add: written_def manifest_text_ends [OF p])
  show ?thesis
    unfolding Let_def rp
    using w5 [of root] w6 [of root] w8 [of root] run t by simp
qed

text \<open>
  A run creates nothing outside the paths it writes and the directories above them: a
  path that is no initial segment of a written path is left as it was.
\<close>

lemma mkdir_from_frame:
  "mkdir_from fs pre cs = (fs', e) \<Longrightarrow> take (length q) (pre @ cs) \<noteq> q
     \<Longrightarrow> lookup fs' q = lookup fs q"
proof (induction cs arbitrary: fs pre)
  case Nil
  then show ?case by simp
next
  case (Cons c cs)
  have n: "q \<noteq> pre @ [c]"
  proof
    assume "q = pre @ [c]"
    then have "take (length q) (pre @ c # cs) = q" by simp
    with Cons.prems(2) show False by simp
  qed
  from Cons.prems(2) have t: "take (length q) ((pre @ [c]) @ cs) \<noteq> q" by simp
  show ?case
  proof (cases "lookup fs (pre @ [c])")
    case None
    with Cons.prems(1) have "mkdir_from ((pre @ [c], Dir) # fs) (pre @ [c]) cs = (fs', e)"
      by simp
    from Cons.IH [OF this t] have "lookup fs' q = lookup ((pre @ [c], Dir) # fs) q" .
    with n show ?thesis by (simp add: lookup_def)
  next
    case (Some x)
    show ?thesis
    proof (cases x)
      case (File y)
      with Some Cons.prems(1) show ?thesis by simp
    next
      case Dir
      with Some Cons.prems(1) have "mkdir_from fs (pre @ [c]) cs = (fs', e)" by simp
      from Cons.IH [OF this t] show ?thesis .
    qed
  qed
qed

lemma take_butlast_segment:
  assumes "take (length q) p \<noteq> q"
  shows "take (length q) (butlast p) \<noteq> q"
proof
  assume a: "take (length q) (butlast p) = q"
  have "length (take (length q) (butlast p)) \<le> length (butlast p)" by simp
  with a have "length q \<le> length (butlast p)" by simp
  then have "length q \<le> length p - 1" by simp
  then have "take (length q) (take (length p - 1) p) = take (length q) p"
    by (simp add: min_absorb1)
  then have "take (length q) (butlast p) = take (length q) p"
    by (simp only: butlast_conv_take)
  with a assms show False by simp
qed

lemma write_file_frame:
  assumes "write_file fs p c = (fs', None)" and "take (length q) p \<noteq> q"
  shows "lookup fs' q = lookup fs q"
proof -
  obtain fs1 where m: "mkdir_from fs [] (parent p) = (fs1, None)"
    and w: "fs' = (p, File (written c)) # fs1"
    using assms(1)
    by (auto simp: write_file_def mkdir_parents_def split: prod.splits option.splits node.splits)
  from assms(2) have "take (length q) ([] @ parent p) \<noteq> q"
    unfolding parent_def by (simp add: take_butlast_segment)
  with m have "lookup fs1 q = lookup fs q" by (rule mkdir_from_frame)
  moreover from assms(2) have "q \<noteq> p" by auto
  ultimately show ?thesis unfolding w by (auto simp: lookup_def split: if_splits)
qed

lemma write_all_frame:
  "write_all fs ws = (fs', None) \<Longrightarrow> list_all (\<lambda>p. take (length q) p \<noteq> q) (map fst ws)
     \<Longrightarrow> lookup fs' q = lookup fs q"
proof (induction ws arbitrary: fs)
  case Nil
  then show ?case by simp
next
  case (Cons w ws)
  obtain p c where w: "w = (p, c)" by (cases w)
  from Cons.prems(1) obtain fs1 where 1: "write_file fs p c = (fs1, None)"
    and 2: "write_all fs1 ws = (fs', None)"
    unfolding w by (auto split: prod.splits option.splits)
  from Cons.prems(2) have a: "take (length q) p \<noteq> q"
    and b: "list_all (\<lambda>p. take (length q) p \<noteq> q) (map fst ws)"
    unfolding w by simp_all
  from 1 a have "lookup fs1 q = lookup fs q" by (rule write_file_frame)
  with Cons.IH [OF 2 b] show ?case by simp
qed

lemma generate_frame:
  assumes "generate U now fs m = (out, Inr r)"
    and "list_all (\<lambda>p. take (length q) p \<noteq> q) (map fst (file_writes U r (normalized U m)))"
  shows "lookup out q = lookup fs q"
proof -
  from assms(1) have "write_all fs (file_writes U r (normalized U m)) = (out, None)"
    by (auto simp: generate_def Let_def split: sum.splits prod.splits option.splits)
  then show ?thesis using assms(2) by (rule write_all_frame)
qed

text \<open>
  C10 as stated, with the icon value read as a path from the target, fails on the
  default record. The manifest records \<^verbatim>\<open>assets/cbclient/icon.png\<close>; the ninth call of
  \<^verbatim>\<open>write_file\<close> writes the icon bytes at
  \<^verbatim>\<open>src/main/resources/assets/cbclient/icon.png\<close> below the target, which is another
  path; no call writes at \<^verbatim>\<open>assets/cbclient/icon.png\<close> below the target, and after a
  run into an empty file system the icon is in the first place and nothing is in the
  second.
\<close>

theorem icon_ref_not_from_target:
  "json_get (manifest ascii_db (normalized ascii_db default_meta)) (lit ''icon'')
     = Some (JStr (lit ''assets/cbclient/icon.png''))
   \<and> file_writes ascii_db [lit ''out''] (normalized ascii_db default_meta) ! 8
     = ([lit ''out''] @ [lit ''src'', lit ''main'', lit ''resources'', lit ''assets'',
                         lit ''cbclient'', lit ''icon.png''], Bytes (b64decode ICON_B64))
   \<and> path_parts (lit ''assets/cbclient/icon.png'')
     \<noteq> [lit ''src'', lit ''main'', lit ''resources'', lit ''assets'', lit ''cbclient'',
        lit ''icon.png'']
   \<and> path_div [lit ''out''] (lit ''assets/cbclient/icon.png'')
     = [lit ''out'', lit ''assets'', lit ''cbclient'', lit ''icon.png'']
   \<and> [lit ''out'', lit ''assets'', lit ''cbclient'', lit ''icon.png'']
     \<notin> set (map fst (file_writes ascii_db [lit ''out''] (normalized ascii_db default_meta)))
   \<and> snd (generate ascii_db sample_now [] default_meta) = Inr [lit ''work'', lit ''CBClient_client'']
   \<and> lookup (fst (generate ascii_db sample_now [] default_meta))
       ([lit ''work'', lit ''CBClient_client'']
          @ [lit ''src'', lit ''main'', lit ''resources'', lit ''assets'', lit ''cbclient'',
             lit ''icon.png''])
     = Some (File (Bytes (b64decode ICON_B64)))
   \<and> lookup (fst (generate ascii_db sample_now [] default_meta))
       (path_div [lit ''work'', lit ''CBClient_client''] (lit ''assets/cbclient/icon.png''))
     = None"
proof -
  let ?cm = "normalized ascii_db default_meta"
  let ?r = "[lit ''work'', lit ''CBClient_client'']"
  have c: "mod_id ?cm \<noteq> []" "cp CHR ''/'' \<notin> set (mod_id ?cm)" "mod_id ?cm \<noteq> lit ''.''"
    by (simp_all add: sample_ids(1)) (simp_all add: lit_def cp_def)
  have 1: "json_get (manifest ascii_db ?cm) (lit ''icon'') = Some (JStr (lit ''assets/cbclient/icon.png''))"
    by (simp add: manifest_icon sample_ids(1)) (simp add: lit_def)
  have 2: "file_writes ascii_db [lit ''out''] ?cm ! 8
             = ([lit ''out''] @ [lit ''src'', lit ''main'', lit ''resources'', lit ''assets'',
                 lit ''cbclient'', lit ''icon.png''], Bytes (b64decode ICON_B64))"
    by (simp add: file_writes_nth(3) [OF c] sample_ids(1) res_dir_def)
  have 3: "path_parts (lit ''assets/cbclient/icon.png'')
             \<noteq> [lit ''src'', lit ''main'', lit ''resources'', lit ''assets'', lit ''cbclient'',
                lit ''icon.png'']"
    by (simp add: path_parts_def lit_def cp_def)
  have 4: "path_div [lit ''out''] (lit ''assets/cbclient/icon.png'')
             = [lit ''out'', lit ''assets'', lit ''cbclient'', lit ''icon.png'']"
    by (simp add: path_div_def path_parts_def lit_def cp_def)
  have 5: "[lit ''out'', lit ''assets'', lit ''cbclient'', lit ''icon.png'']
             \<notin> set (map fst (file_writes ascii_db [lit ''out''] ?cm))"
    unfolding sample_paths by (simp add: sample_rel_def lit_def cp_def)
  have run: "generate ascii_db sample_now [] default_meta
               = (fst (generate ascii_db sample_now [] default_meta), Inr ?r)"
    using sample_run_empty by (simp add: prod_eq_iff)
  have "(?r @ [lit ''src'', lit ''main'', lit ''resources'', lit ''assets'', lit ''cbclient'',
               lit ''icon.png''], Bytes (b64decode ICON_B64))
          \<in> set (file_writes ascii_db ?r ?cm)"
    using nth_mem [of 8 "file_writes ascii_db ?r ?cm"]
    by (simp add: file_writes_length file_writes_nth(3) [OF c] sample_ids(1) res_dir_def)
  then have "([lit ''src'', lit ''main'', lit ''resources'', lit ''assets'', lit ''cbclient'',
               lit ''icon.png''], Bytes (b64decode ICON_B64))
          \<in> set (file_writes ascii_db [] ?cm)"
    using nth_mem [of 8 "file_writes ascii_db [] ?cm"]
    by (simp add: file_writes_length file_writes_nth(3) [OF c] sample_ids(1) res_dir_def)
  from generate_files [OF run this]
  have 6: "lookup (fst (generate ascii_db sample_now [] default_meta))
             (?r @ [lit ''src'', lit ''main'', lit ''resources'', lit ''assets'', lit ''cbclient'',
                    lit ''icon.png''])
             = Some (File (Bytes (b64decode ICON_B64)))"
    by (simp add: written_def)
  have q: "path_div ?r (lit ''assets/cbclient/icon.png'')
             = [lit ''work'', lit ''CBClient_client'', lit ''assets'', lit ''cbclient'', lit ''icon.png'']"
    by (simp add: path_div_def path_parts_def lit_def cp_def)
  have "list_all (\<lambda>p. take (length (path_div ?r (lit ''assets/cbclient/icon.png''))) p
                       \<noteq> path_div ?r (lit ''assets/cbclient/icon.png''))
          (map fst (file_writes ascii_db ?r ?cm))"
    unfolding sample_paths q by (simp add: sample_rel_def lit_def cp_def)
  from generate_frame [OF run this]
  have 7: "lookup (fst (generate ascii_db sample_now [] default_meta))
             (path_div ?r (lit ''assets/cbclient/icon.png'')) = None"
    unfolding q by (simp add: lookup_def)
  from 1 2 3 4 5 sample_run_empty 6 7 show ?thesis by blast
qed

theorem manifest_refs_resolve_witness:
  "(path_div ([lit ''work'', lit ''CBClient_client''] @ res_dir)
       (lit ''assets/'' @ lit ''cbclient'' @ lit ''/icon.png''), Bytes (b64decode ICON_B64))
     \<in> set (file_writes ascii_db [lit ''work'', lit ''CBClient_client'']
              (normalized ascii_db default_meta))
   \<and> path_div ([lit ''work'', lit ''CBClient_client''] @ res_dir)
       (lit ''assets/'' @ lit ''cbclient'' @ lit ''/icon.png'')
     = [lit ''work'', lit ''CBClient_client'', lit ''src'', lit ''main'', lit ''resources'',
        lit ''assets'', lit ''cbclient'', lit ''icon.png'']
   \<and> lookup (fst (generate ascii_db sample_now [] default_meta))
       [lit ''work'', lit ''CBClient_client'', lit ''src'', lit ''main'', lit ''resources'',
        lit ''assets'', lit ''cbclient'', lit ''icon.png'']
     = Some (File (Bytes (b64decode ICON_B64)))
   \<and> lookup (fst (generate ascii_db sample_now [] default_meta))
       (path_div ([lit ''work'', lit ''CBClient_client''] @ res_dir)
          (lit ''cbclient'' @ lit ''.mixins.json''))
     = Some (File (written (Text (json_dumps (mixins_config ascii_db
                                                (normalized ascii_db default_meta))))))
   \<and> lookup (fst (generate ascii_db sample_now [] default_meta))
       ([lit ''work'', lit ''CBClient_client''] @ res_dir @ [lit ''fabric.mod.json''])
     = Some (File (Text (json_dumps (manifest ascii_db (normalized ascii_db default_meta))
                         @ [10])))"
proof -
  let ?cm = "normalized ascii_db default_meta"
  let ?r = "[lit ''work'', lit ''CBClient_client'']"
  have run: "generate ascii_db sample_now [] default_meta
               = (fst (generate ascii_db sample_now [] default_meta), Inr ?r)"
    using sample_run_empty by (simp add: prod_eq_iff)
  note T = manifest_refs_resolve [where U = ascii_db and m = default_meta and root = ?r,
      unfolded Let_def sample_ids(1)]
  note c2 = T [THEN conjunct2, THEN conjunct2]
  have 1: "(path_div (?r @ res_dir) (lit ''assets/'' @ lit ''cbclient'' @ lit ''/icon.png''),
            Bytes (b64decode ICON_B64)) \<in> set (file_writes ascii_db ?r ?cm)"
    by (rule c2 [THEN conjunct1])
  have 2: "path_div (?r @ res_dir) (lit ''assets/'' @ lit ''cbclient'' @ lit ''/icon.png'')
             = ?r @ res_dir @ [lit ''assets'', lit ''cbclient'', lit ''icon.png'']"
    by (rule c2 [THEN conjunct2, THEN conjunct1])
  note R = c2 [THEN conjunct2, THEN conjunct2, THEN conjunct2, THEN conjunct2, THEN spec,
      THEN spec, THEN spec, THEN spec, THEN mp, OF run]
  have 3: "lookup (fst (generate ascii_db sample_now [] default_meta))
             (path_div (?r @ res_dir) (lit ''assets/'' @ lit ''cbclient'' @ lit ''/icon.png''))
             = Some (File (Bytes (b64decode ICON_B64)))"
    by (rule R [THEN conjunct2, THEN conjunct1])
  have 4: "lookup (fst (generate ascii_db sample_now [] default_meta))
             (path_div (?r @ res_dir) (lit ''cbclient'' @ lit ''.mixins.json''))
             = Some (File (written (Text (json_dumps (mixins_config ascii_db ?cm)))))"
    by (rule R [THEN conjunct2, THEN conjunct2])
  have 5: "lookup (fst (generate ascii_db sample_now [] default_meta))
             (?r @ res_dir @ [lit ''fabric.mod.json''])
             = Some (File (Text (json_dumps (manifest ascii_db ?cm) @ [10])))"
    unfolding T [THEN conjunct2, THEN conjunct1] by (rule R [THEN conjunct1])
  have e: "?r @ res_dir @ [lit ''assets'', lit ''cbclient'', lit ''icon.png'']
             = [lit ''work'', lit ''CBClient_client'', lit ''src'', lit ''main'', lit ''resources'',
                lit ''assets'', lit ''cbclient'', lit ''icon.png'']"
    by (simp add: res_dir_def)
  from 1 2 3 4 5 show ?thesis unfolding 2 e by blast
qed

end
